theory Spec2Isabelle
  imports
    Main
    "HOL-Library.AList"
    "HOL-Library.Char_ord"
    "HOL-Library.List_Lexorder"
    "HOL-Library.Product_Lexorder"
    "HOL-Library.Multiset"
begin

section \<open>The XP threshold table and Python list indexing\<close>

text \<open>
  \<^verbatim>\<open>XP_THRESHOLDS\<close> of \<^verbatim>\<open>dnd_xp_bot.py\<close>: the cumulative XP at which each of the
  levels 1 to 20 starts. Python integers are unbounded, hence \<open>int\<close>.
\<close>

definition XP_THRESHOLDS :: "int list" where
  "XP_THRESHOLDS =
     [0, 300, 900, 2700, 6500, 14000, 23000, 34000, 48000, 64000,
      85000, 100000, 120000, 140000, 165000, 195000, 225000, 265000, 305000, 355000]"

datatype py_error = IndexError

text \<open>
  \<^verbatim>\<open>xs[i]\<close> on a Python list: an index below zero is counted from the end, and an
  index outside \<open>-len .. len - 1\<close> raises \<^verbatim>\<open>IndexError\<close>.
\<close>

definition list_getitem :: "'a list \<Rightarrow> int \<Rightarrow> py_error + 'a" where
  "list_getitem xs i =
     (if 0 \<le> i \<and> i < int (length xs) then Inr (xs ! nat i)
      else if i < 0 \<and> - int (length xs) \<le> i then Inr (xs ! nat (int (length xs) + i))
      else Inl IndexError)"

text \<open>\<^verbatim>\<open>enumerate(xs, start=k)\<close>.\<close>

fun enumerate_start :: "int \<Rightarrow> 'a list \<Rightarrow> (int \<times> 'a) list" where
  "enumerate_start k [] = []"
| "enumerate_start k (x # xs) = (k, x) # enumerate_start (k + 1) xs"

section \<open>The progression calculator\<close>

text \<open>
  The \<^verbatim>\<open>for\<close> loop of \<^verbatim>\<open>level_from_xp\<close>: it walks the enumerated table and
  overwrites \<^verbatim>\<open>lvl\<close> at every threshold the total has reached.
\<close>

fun level_scan :: "int \<Rightarrow> (int \<times> int) list \<Rightarrow> int \<Rightarrow> int" where
  "level_scan xp_total [] lvl = lvl"
| "level_scan xp_total ((i, threshold) # rest) lvl =
     level_scan xp_total rest (if xp_total \<ge> threshold then i else lvl)"

definition level_from_xp :: "int \<Rightarrow> int" where
  "level_from_xp xp_total = min (level_scan xp_total (enumerate_start 1 XP_THRESHOLDS) 1) 20"

definition next_threshold :: "int \<Rightarrow> py_error + int option" where
  "next_threshold level =
     (if level \<ge> 20 then Inr None
      else case list_getitem XP_THRESHOLDS level of
             Inl e \<Rightarrow> Inl e
           | Inr t \<Rightarrow> Inr (Some t))"

definition prev_threshold :: "int \<Rightarrow> py_error + int" where
  "prev_threshold level = list_getitem XP_THRESHOLDS (level - 1)"

definition remaining_to_next :: "int \<Rightarrow> py_error + int option" where
  "remaining_to_next xp_total =
     (let lvl = level_from_xp xp_total in
      case next_threshold lvl of
        Inl e \<Rightarrow> Inl e
      | Inr None \<Rightarrow> Inr None
      | Inr (Some nxt) \<Rightarrow> Inr (Some (max 0 (nxt - xp_total))))"

definition progress_in_level :: "int \<Rightarrow> py_error + (int \<times> int \<times> int)" where
  "progress_in_level xp_total =
     (let lvl = level_from_xp xp_total in
      if lvl \<ge> 20 then Inr (0, 0, 20)
      else case prev_threshold lvl of
             Inl e \<Rightarrow> Inl e
           | Inr low \<Rightarrow>
               (case next_threshold lvl of
                  Inl e \<Rightarrow> Inl e
                | Inr high \<Rightarrow>
                    (let cur = xp_total - low;
                         need = (case high of Some h \<Rightarrow> h - low | None \<Rightarrow> 0)
                     in Inr (max 0 cur, max 0 need, lvl))))"

text \<open>
  \<^verbatim>\<open>render_progress_bar\<close>. A bar is a Python string of the two glyphs U+2588 (full block)
  and U+2591 (light shade), one code point per cell, so it is modelled as a list of cells.
  \<^verbatim>\<open>int(round(width * (cur / need)))\<close> is computed in IEEE double precision
  (true division, multiplication, round-half-to-even, and \<^verbatim>\<open>OverflowError\<close> on values
  out of range); that arithmetic is taken as the parameter \<open>float_round\<close>, applied to
  \<open>width\<close>, \<open>cur\<close> and \<open>need\<close>. \<^verbatim>\<open>s * n\<close> with \<open>n \<le> 0\<close> is the empty string.
\<close>

datatype cell = Full | Light

datatype float_error = OverflowError

definition render_progress_bar ::
  "(int \<Rightarrow> int \<Rightarrow> int \<Rightarrow> float_error + int) \<Rightarrow> int \<Rightarrow> int \<Rightarrow> int \<Rightarrow> float_error + cell list" where
  "render_progress_bar float_round cur need width =
     (if need \<le> 0 then Inr (replicate (nat width) Full)
      else case float_round width cur need of
             Inl e \<Rightarrow> Inl e
           | Inr rounded \<Rightarrow>
               (let filled = max 0 (min width rounded)
                in Inr (replicate (nat filled) Full @ replicate (nat (width - filled)) Light)))"

section \<open>The record store\<close>

text \<open>
  The persisted JSON document is
  \<^verbatim>\<open>{ "<guild id>": { "members": { "<user id>": { "xp": n } } } }\<close>.
  Every key the program writes is \<^verbatim>\<open>str(id)\<close> of an integer id, and \<^verbatim>\<open>str\<close> is
  injective on integers, so the dictionaries are keyed by the id itself. Python
  dictionaries keep insertion order and \<^verbatim>\<open>d[k] = v\<close> overwrites in place or appends, which
  is \<^const>\<open>AList.update\<close> on an association list. A member dictionary may lack its
  \<^verbatim>\<open>"xp"\<close> key (the code reads it with \<^verbatim>\<open>m.get("xp", 0)\<close>), hence the option.
\<close>

record member =
  xp :: "int option"

record guild =
  members :: "(int \<times> member) list"

type_synonym db = "(int \<times> guild) list"

text \<open>
  The two files the program touches: \<^verbatim>\<open>DATA_FILE\<close> and \<^verbatim>\<open>DATA_FILE + ".tmp"\<close>.
  \<open>None\<close> is a file that does not exist. JSON serialisation is not modelled: a file
  holds the value that was dumped into it.
\<close>

record fs =
  data_file :: "db option"
  tmp_file :: "db option"

definition load_db :: "fs \<Rightarrow> db" where
  "load_db f = (case data_file f of None \<Rightarrow> [] | Some d \<Rightarrow> d)"

text \<open>\<^verbatim>\<open>save_db\<close>: dump into the temporary file, then \<^verbatim>\<open>os.replace\<close> it onto the data file.\<close>

definition save_db :: "db \<Rightarrow> fs \<Rightarrow> fs" where
  "save_db d f =
     (let written = f\<lparr>tmp_file := Some d\<rparr>
      in written\<lparr>data_file := tmp_file written, tmp_file := None\<rparr>)"

text \<open>
  \<^verbatim>\<open>guild_bucket\<close> and \<^verbatim>\<open>ensure_member\<close> mutate their argument and return a reference
  into it. The model returns the updated container together with the entry; a later
  mutation of the entry is written back into the container explicitly.
\<close>

definition guild_bucket :: "db \<Rightarrow> int \<Rightarrow> db \<times> guild" where
  "guild_bucket d guild_id =
     (case map_of d guild_id of
        None \<Rightarrow> (AList.update guild_id \<lparr>members = []\<rparr> d, \<lparr>members = []\<rparr>)
      | Some g \<Rightarrow> (d, g))"

definition ensure_member :: "guild \<Rightarrow> int \<Rightarrow> guild \<times> member" where
  "ensure_member db_guild user_id =
     (case map_of (members db_guild) user_id of
        None \<Rightarrow> (db_guild\<lparr>members := AList.update user_id \<lparr>xp = Some 0\<rparr> (members db_guild)\<rparr>,
                 \<lparr>xp = Some 0\<rparr>)
      | Some m \<Rightarrow> (db_guild, m))"

text \<open>\<^verbatim>\<open>int(m.get("xp", 0))\<close>.\<close>

definition get_xp :: "member \<Rightarrow> int" where
  "get_xp m = (case xp m of None \<Rightarrow> 0 | Some v \<Rightarrow> v)"

text \<open>The xp the persisted file holds for a member, if the member has a record there.\<close>

definition stored_xp :: "fs \<Rightarrow> int \<Rightarrow> int \<Rightarrow> int option" where
  "stored_xp f guild_id user_id =
     (case map_of (load_db f) guild_id of
        None \<Rightarrow> None
      | Some g \<Rightarrow> map_option get_xp (map_of (members g) user_id))"

text \<open>No member of the database holds a negative xp.\<close>

definition xp_nonneg :: "db \<Rightarrow> bool" where
  "xp_nonneg d = list_all (\<lambda>ge. list_all (\<lambda>me. 0 \<le> get_xp (snd me)) (members (snd ge))) d"

text \<open>
  The database after the record of one member has been set to \<open>v\<close> xp: the write
  that \<^verbatim>\<open>add_xp_for_member\<close>, \<^verbatim>\<open>join\<close> and \<^verbatim>\<open>setlevel\<close> hand to \<^verbatim>\<open>save_db\<close>.
\<close>

definition written_db :: "fs \<Rightarrow> int \<Rightarrow> int \<Rightarrow> int \<Rightarrow> db" where
  "written_db f g u v =
     AList.update g \<lparr>members = AList.update u \<lparr>xp = Some v\<rparr> (members (snd (guild_bucket (load_db f) g)))\<rparr> (load_db f)"

section \<open>The XP operations\<close>

text \<open>
  The dictionary \<^verbatim>\<open>add_xp_for_member\<close> returns; \<open>user\<close> is the id of the member object.
\<close>

record addxp_info =
  user :: int
  add :: int
  after_xp :: int
  after_lvl :: int
  leveled :: bool
  rem :: "int option"
  cur_in_level :: int
  need_for_level :: int

text \<open>
  \<^verbatim>\<open>add_xp_for_member\<close>. The body of \<^verbatim>\<open>async with db_lock\<close> contains no \<^verbatim>\<open>await\<close>, so
  it runs as one step from \<^verbatim>\<open>load_db\<close> to \<^verbatim>\<open>save_db\<close>; the function is a transformer of
  the file system state.
\<close>

definition add_xp_for_member :: "fs \<Rightarrow> int \<Rightarrow> int \<Rightarrow> int \<Rightarrow> (py_error + addxp_info) \<times> fs" where
  "add_xp_for_member f guild_id user_id amount =
     (let d = load_db f;
          (d1, g) = guild_bucket d guild_id;
          (g1, m) = ensure_member g user_id;
          before_xp = get_xp m;
          before_lvl = level_from_xp before_xp;
          m1 = m\<lparr>xp := Some (max 0 (before_xp + amount))\<rparr>;
          g2 = g1\<lparr>members := AList.update user_id m1 (members g1)\<rparr>;
          d2 = AList.update guild_id g2 d1;
          after_xp' = get_xp m1;
          after_lvl' = level_from_xp after_xp';
          f' = save_db d2 f;
          leveled' = (after_lvl' > before_lvl)
      in case remaining_to_next after_xp' of
           Inl e \<Rightarrow> (Inl e, f')
         | Inr rem' \<Rightarrow>
             (case progress_in_level after_xp' of
                Inl e \<Rightarrow> (Inl e, f')
              | Inr (cur, need, _) \<Rightarrow>
                  (Inr \<lparr>user = user_id, add = amount, after_xp = after_xp',
                        after_lvl = after_lvl', leveled = leveled', rem = rem',
                        cur_in_level = cur, need_for_level = need\<rparr>, f')))"

text \<open>The command \<^verbatim>\<open>/addxp\<close>: a zero amount is answered without touching the store.\<close>

datatype addxp_reply = ZeroXp | Awarded addxp_info

definition addxp :: "fs \<Rightarrow> int \<Rightarrow> int \<Rightarrow> int \<Rightarrow> (py_error + addxp_reply) \<times> fs" where
  "addxp f guild_id user_id amount =
     (if amount = 0 then (Inr ZeroXp, f)
      else case add_xp_for_member f guild_id user_id amount of
             (Inl e, f') \<Rightarrow> (Inl e, f')
           | (Inr info, f') \<Rightarrow> (Inr (Awarded info), f'))"

text \<open>
  The command \<^verbatim>\<open>/addxp_all\<close>. \<open>get_member\<close> stands for \<^verbatim>\<open>_get_member_safe\<close>: whether
  the chat platform still knows the member. The loop collects one result per member it
  could resolve and the ids of those who gained a level.
\<close>

datatype addxp_all_reply = ZeroXpAll | NobodyInParty | Distributed "addxp_info list" "int list"

fun addxp_all_loop ::
  "(int \<Rightarrow> bool) \<Rightarrow> fs \<Rightarrow> int \<Rightarrow> int \<Rightarrow> int list \<Rightarrow> addxp_info list \<Rightarrow> int list
   \<Rightarrow> (py_error + addxp_info list \<times> int list) \<times> fs" where
  "addxp_all_loop get_member f guild_id amount [] infos leveled_up =
     (Inr (infos, leveled_up), f)"
| "addxp_all_loop get_member f guild_id amount (uid # member_ids) infos leveled_up =
     (if \<not> get_member uid
      then addxp_all_loop get_member f guild_id amount member_ids infos leveled_up
      else case add_xp_for_member f guild_id uid amount of
             (Inl e, f') \<Rightarrow> (Inl e, f')
           | (Inr info, f') \<Rightarrow>
               addxp_all_loop get_member f' guild_id amount member_ids (infos @ [info])
                 (if leveled info then leveled_up @ [uid] else leveled_up))"

definition addxp_all ::
  "(int \<Rightarrow> bool) \<Rightarrow> fs \<Rightarrow> int \<Rightarrow> int \<Rightarrow> (py_error + addxp_all_reply) \<times> fs" where
  "addxp_all get_member f guild_id amount =
     (if amount = 0 then (Inr ZeroXpAll, f)
      else let d = load_db f;
               (d1, g) = guild_bucket d guild_id;
               member_ids = map fst (members g)
           in if member_ids = [] then (Inr NobodyInParty, f)
              else case addxp_all_loop get_member f guild_id amount member_ids [] [] of
                     (Inl e, f') \<Rightarrow> (Inl e, f')
                   | (Inr (infos, leveled_up), f') \<Rightarrow> (Inr (Distributed infos leveled_up), f'))"

text \<open>
  The command \<^verbatim>\<open>/join\<close>. \<open>guild_id\<close> is \<open>None\<close> outside a server, \<open>invoker\<close> is
  \<^verbatim>\<open>interaction.user\<close>, \<open>user_arg\<close> the optional \<^verbatim>\<open>user\<close> argument and \<open>is_moderator\<close> the
  value of \<^verbatim>\<open>_is_moderator_or_admin(interaction.user)\<close>. The replies carry the numbers the
  embeds show: level, xp and the remaining xp.
\<close>

datatype join_reply =
    ServerOnly
  | NotAllowed
  | AlreadyInParty int int "int option"
  | Joined int int "int option"

definition join ::
  "fs \<Rightarrow> int option \<Rightarrow> int \<Rightarrow> bool \<Rightarrow> int option \<Rightarrow> int \<Rightarrow> int \<Rightarrow> (py_error + join_reply) \<times> fs" where
  "join f guild_id invoker is_moderator user_arg level xp_arg =
     (case guild_id of
        None \<Rightarrow> (Inr ServerOnly, f)
      | Some gid \<Rightarrow>
          (let target = (case user_arg of None \<Rightarrow> invoker | Some u \<Rightarrow> u)
           in if target \<noteq> invoker \<and> \<not> is_moderator then (Inr NotAllowed, f)
              else
                (let d = load_db f;
                     (d1, g) = guild_bucket d gid
                 in case map_of (members g) target of
                      Some m \<Rightarrow>
                        (let xp_now = get_xp m;
                             lvl = level_from_xp xp_now
                         in case remaining_to_next xp_now of
                              Inl e \<Rightarrow> (Inl e, f)
                            | Inr rem' \<Rightarrow> (Inr (AlreadyInParty lvl xp_now rem'), f))
                    | None \<Rightarrow>
                        (case list_getitem XP_THRESHOLDS (level - 1) of
                           Inl e \<Rightarrow> (Inl e, f)
                         | Inr min_xp \<Rightarrow>
                             (let xp1 = (if xp_arg < min_xp then min_xp else xp_arg);
                                  g1 = g\<lparr>members := AList.update target \<lparr>xp = Some xp1\<rparr> (members g)\<rparr>;
                                  d2 = AList.update gid g1 d1;
                                  f' = save_db d2 f;
                                  cur_level = level_from_xp xp1
                              in case remaining_to_next xp1 of
                                   Inl e \<Rightarrow> (Inl e, f')
                                 | Inr rem' \<Rightarrow> (Inr (Joined cur_level xp1 rem'), f'))))))"

text \<open>
  The command \<^verbatim>\<open>/setlevel\<close>; \<open>is_admin\<close> is
  \<^verbatim>\<open>interaction.user.guild_permissions.administrator\<close>. The reply carries the requested
  level, the new xp and what \<^verbatim>\<open>progress_in_level\<close> and \<^verbatim>\<open>remaining_to_next\<close> return for it.
\<close>

datatype setlevel_reply =
    NeedAdmin
  | LevelSet int int "int \<times> int \<times> int" "int option"

definition setlevel ::
  "fs \<Rightarrow> bool \<Rightarrow> int \<Rightarrow> int \<Rightarrow> int \<Rightarrow> (py_error + setlevel_reply) \<times> fs" where
  "setlevel f is_admin guild_id user_id level =
     (if \<not> is_admin then (Inr NeedAdmin, f)
      else
        (let d = load_db f;
             (d1, g) = guild_bucket d guild_id;
             (g1, m) = ensure_member g user_id
         in case list_getitem XP_THRESHOLDS (level - 1) of
              Inl e \<Rightarrow> (Inl e, f)
            | Inr t \<Rightarrow>
                (let m1 = m\<lparr>xp := Some t\<rparr>;
                     g2 = g1\<lparr>members := AList.update user_id m1 (members g1)\<rparr>;
                     d2 = AList.update guild_id g2 d1;
                     f' = save_db d2 f;
                     xp1 = get_xp m1
                 in case progress_in_level xp1 of
                      Inl e \<Rightarrow> (Inl e, f')
                    | Inr prog \<Rightarrow>
                        (case remaining_to_next xp1 of
                           Inl e \<Rightarrow> (Inl e, f')
                         | Inr rem' \<Rightarrow> (Inr (LevelSet level xp1 prog rem'), f')))))"

section \<open>The read-only commands\<close>

text \<open>
  The command \<^verbatim>\<open>/status\<close>. \<^verbatim>\<open>if not m\<close> also rejects a member dictionary that is
  empty, which here is a record without its xp key. The flag of \<open>NotInParty\<close> tells
  whether the invoker asked about themselves (the two messages differ).
\<close>

datatype status_reply = NotInParty bool | Status int int "int option"

definition status ::
  "fs \<Rightarrow> int \<Rightarrow> int \<Rightarrow> int option \<Rightarrow> (py_error + status_reply) \<times> fs" where
  "status f guild_id invoker user_arg =
     (let usr = (case user_arg of None \<Rightarrow> invoker | Some u \<Rightarrow> u);
          d = load_db f;
          (d1, g) = guild_bucket d guild_id
      in case map_of (members g) usr of
           None \<Rightarrow> (Inr (NotInParty (usr = invoker)), f)
         | Some m \<Rightarrow>
             if xp m = None then (Inr (NotInParty (usr = invoker)), f)
             else
               (let xp1 = get_xp m
                in case progress_in_level xp1 of
                     Inl e \<Rightarrow> (Inl e, f)
                   | Inr (_, _, lvl) \<Rightarrow>
                       (case remaining_to_next xp1 of
                          Inl e \<Rightarrow> (Inl e, f)
                        | Inr rem' \<Rightarrow> (Inr (Status lvl xp1 rem'), f))))"

text \<open>\<^verbatim>\<open>str\<close> of an integer: its decimal digits, with a minus sign below zero.\<close>

function str_nat :: "nat \<Rightarrow> string" where
  "str_nat n =
     (if n < 10 then [char_of (48 + n)]
      else str_nat (n div 10) @ [char_of (48 + n mod 10)])"
  by pat_completeness auto
termination
  by (relation "measure (\<lambda>n. n)") auto

declare str_nat.simps [simp del]

definition str_int :: "int \<Rightarrow> string" where
  "str_int i = (if i < 0 then CHR ''-'' # str_nat (nat (- i)) else str_nat (nat i))"

text \<open>
  The command \<^verbatim>\<open>/party\<close>. \<open>display_name\<close> stands for \<^verbatim>\<open>_get_member_safe\<close> followed by
  \<^verbatim>\<open>.display_name\<close> (\<open>None\<close> when the platform does not know the member), and \<open>lower\<close>
  for \<^verbatim>\<open>str.lower\<close>. The rows are the tuples the loop appends; \<^verbatim>\<open>sortable.sort()\<close>
  orders tuples lexicographically, strings by code point, which is the order of the
  product, list and character instances. A field of the reply is
  \<open>(idx, name, lvl, xp, rem)\<close>, with \<open>rem\<close> present when the embed shows it.
\<close>

type_synonym sort_row = "int \<times> int \<times> string \<times> int \<times> int \<times> string"

type_synonym roster_field = "int \<times> string \<times> int \<times> int \<times> int option"

definition member_name :: "(int \<Rightarrow> string option) \<Rightarrow> int \<Rightarrow> string" where
  "member_name display_name uid =
     (case display_name uid of Some n \<Rightarrow> n | None \<Rightarrow> ''UID:'' @ str_int uid)"

definition party_row :: "(int \<Rightarrow> string option) \<Rightarrow> (string \<Rightarrow> string) \<Rightarrow> int \<times> member \<Rightarrow> sort_row" where
  "party_row display_name lower entry =
     (let uid = fst entry;
          xp1 = get_xp (snd entry);
          lvl = level_from_xp xp1;
          name = member_name display_name uid
      in (- lvl, - xp1, lower name, xp1, lvl, name))"

fun party_fields :: "(int \<times> sort_row) list \<Rightarrow> py_error + roster_field list" where
  "party_fields [] = Inr []"
| "party_fields ((idx, (_, _, _, xp1, lvl, name)) # rest) =
     (case remaining_to_next xp1 of
        Inl e \<Rightarrow> Inl e
      | Inr rem' \<Rightarrow>
          (case party_fields rest of
             Inl e \<Rightarrow> Inl e
           | Inr shown \<Rightarrow>
               Inr ((idx, name, lvl, xp1, if rem' \<noteq> None \<and> lvl < 20 then rem' else None) # shown)))"

datatype party_reply = PartyEmpty | PartyList nat "roster_field list"

definition party ::
  "(int \<Rightarrow> string option) \<Rightarrow> (string \<Rightarrow> string) \<Rightarrow> fs \<Rightarrow> int \<Rightarrow> (py_error + party_reply) \<times> fs" where
  "party display_name lower f guild_id =
     (let d = load_db f;
          (d1, g) = guild_bucket d guild_id
      in if members g = [] then (Inr PartyEmpty, f)
         else
           (let sortable = sort (map (party_row display_name lower) (members g))
            in case party_fields (enumerate_start 1 sortable) of
                 Inl e \<Rightarrow> (Inl e, f)
               | Inr shown \<Rightarrow> (Inr (PartyList (length sortable) shown), f)))"

text \<open>
  The order the roster is specified to have: a field comes before another when its level
  is higher, or the levels agree and its xp is higher, or both agree and its lower-cased
  name is not above the other's.
\<close>

definition roster_before :: "(string \<Rightarrow> string) \<Rightarrow> roster_field \<Rightarrow> roster_field \<Rightarrow> bool" where
  "roster_before lower a b =
     (case a of (_, name_a, lvl_a, xp_a, _) \<Rightarrow>
      case b of (_, name_b, lvl_b, xp_b, _) \<Rightarrow>
        lvl_a > lvl_b
        \<or> (lvl_a = lvl_b \<and> (xp_a > xp_b \<or> (xp_a = xp_b \<and> lower name_a \<le> lower name_b))))"

text \<open>What a field shows of a member: the name, the level and the xp.\<close>

definition field_entry :: "roster_field \<Rightarrow> string \<times> int \<times> int" where
  "field_entry a = (case a of (_, name, lvl, xp1, _) \<Rightarrow> (name, lvl, xp1))"

definition member_entry :: "(int \<Rightarrow> string option) \<Rightarrow> int \<times> member \<Rightarrow> string \<times> int \<times> int" where
  "member_entry display_name entry =
     (member_name display_name (fst entry), level_from_xp (get_xp (snd entry)), get_xp (snd entry))"

text \<open>The member dictionary of a guild as the read-only commands see it after \<^verbatim>\<open>load_db\<close>.\<close>

definition guild_members :: "fs \<Rightarrow> int \<Rightarrow> (int \<times> member) list" where
  "guild_members f guild_id = members (snd (guild_bucket (load_db f) guild_id))"

text \<open>The field that one pass of the second loop of \<^verbatim>\<open>party\<close> adds to the embed.\<close>

definition shown_field :: "int \<times> sort_row \<Rightarrow> roster_field" where
  "shown_field e =
     (case e of (idx, (_, _, _, xp1, lvl, name)) \<Rightarrow>
        (idx, name, lvl, xp1,
         case remaining_to_next xp1 of
           Inr (Some r) \<Rightarrow> if lvl < 20 then Some r else None
         | _ \<Rightarrow> None))"

text \<open>Lower-casing of the ASCII letters, one instance of \<^verbatim>\<open>str.lower\<close>.\<close>

definition ascii_lower :: "string \<Rightarrow> string" where
  "ascii_lower s =
     map (\<lambda>c. if CHR ''A'' \<le> c \<and> c \<le> CHR ''Z'' then char_of (of_char c + (32 :: nat)) else c) s"

text \<open>What a row of \<^verbatim>\<open>sortable\<close> holds of a member: the name, the level and the xp.\<close>

definition row_entry :: "sort_row \<Rightarrow> string \<times> int \<times> int" where
  "row_entry r = (case r of (_, _, _, xp1, lvl, name) \<Rightarrow> (name, lvl, xp1))"

section \<open>Calls waiting for the lock\<close>

text \<open>
  Several \<^verbatim>\<open>add_xp_for_member\<close> calls for one member are pending on \<^verbatim>\<open>db_lock\<close>. A
  coroutine is suspended only at an \<^verbatim>\<open>await\<close>, and between acquiring and releasing the
  lock \<^verbatim>\<open>add_xp_for_member\<close> has none, so each call takes effect as one step; the event
  loop decides which pending call goes next. \<open>serialized g u f ds f'\<close>: the calls with
  amounts \<open>ds\<close> can run to completion from \<open>f\<close> and leave \<open>f'\<close>.
\<close>

inductive serialized :: "int \<Rightarrow> int \<Rightarrow> fs \<Rightarrow> int list \<Rightarrow> fs \<Rightarrow> bool"
  for guild_id :: int and user_id :: int where
  finished: "serialized guild_id user_id f [] f"
| next_call:
    "i < length ds \<Longrightarrow>
     serialized guild_id user_id (snd (add_xp_for_member f guild_id user_id (ds ! i)))
       (take i ds @ drop (Suc i) ds) f'
     \<Longrightarrow> serialized guild_id user_id f ds f'"

text \<open>The calls run in the order they were issued.\<close>

definition in_issue_order :: "int \<Rightarrow> int \<Rightarrow> fs \<Rightarrow> int list \<Rightarrow> fs" where
  "in_issue_order guild_id user_id f ds =
     foldl (\<lambda>f' amount. snd (add_xp_for_member f' guild_id user_id amount)) f ds"

text \<open>One clamped update, \<^verbatim>\<open>max(0, before_xp + add)\<close>.\<close>

definition clamped_add :: "int \<Rightarrow> int \<Rightarrow> int" where
  "clamped_add x amount = max 0 (x + amount)"

section \<open>Facts about the level lookup\<close>

lemma level_scan_range:
  "lo \<le> lvl \<Longrightarrow> lvl \<le> hi \<Longrightarrow> \<forall>p \<in> set ps. lo \<le> fst p \<and> fst p \<le> hi
   \<Longrightarrow> lo \<le> level_scan x ps lvl \<and> level_scan x ps lvl \<le> hi"
proof (induction ps arbitrary: lvl)
  case Nil
  then show ?case by simp
next
  case (Cons p ps)
  obtain i t where p: "p = (i, t)" by (cases p)
  from Cons.prems have "lo \<le> (if x \<ge> t then i else lvl)" "(if x \<ge> t then i else lvl) \<le> hi"
    by (auto simp: p)
  with Cons.IH [of "if x \<ge> t then i else lvl"] Cons.prems show ?case
    by (simp add: p)
qed

lemma level_scan_mono:
  "x1 \<le> x2 \<Longrightarrow> l1 \<le> l2 \<Longrightarrow> \<forall>p \<in> set ps. l2 \<le> fst p \<Longrightarrow> sorted (map fst ps)
   \<Longrightarrow> level_scan x1 ps l1 \<le> level_scan x2 ps l2"
proof (induction ps arbitrary: l1 l2)
  case Nil
  then show ?case by simp
next
  case (Cons p ps)
  obtain i t where p: "p = (i, t)" by (cases p)
  let ?a = "if x1 \<ge> t then i else l1"
  let ?b = "if x2 \<ge> t then i else l2"
  from Cons.prems have ab: "?a \<le> ?b" by (auto simp: p)
  from Cons.prems have "\<forall>q \<in> set ps. i \<le> fst q" "l2 \<le> i" by (auto simp: p)
  then have bnd: "\<forall>q \<in> set ps. ?b \<le> fst q" by auto
  from Cons.prems have srt: "sorted (map fst ps)" by simp
  from Cons.IH [OF Cons.prems(1) ab bnd srt] show ?case by (simp add: p)
qed

lemma enumerate_thresholds_fst:
  "map fst (enumerate_start 1 XP_THRESHOLDS)
   = [1, 2, 3, 4, 5, 6, 7, 8, 9, 10, 11, 12, 13, 14, 15, 16, 17, 18, 19, 20]"
  by (simp add: XP_THRESHOLDS_def)

lemma level_scan_table_range:
  "1 \<le> level_scan x (enumerate_start 1 XP_THRESHOLDS) 1
   \<and> level_scan x (enumerate_start 1 XP_THRESHOLDS) 1 \<le> 20"
proof (rule level_scan_range)
  show "\<forall>p \<in> set (enumerate_start 1 XP_THRESHOLDS). 1 \<le> fst p \<and> fst p \<le> 20"
  proof
    fix p assume "p \<in> set (enumerate_start 1 XP_THRESHOLDS)"
    then have "fst p \<in> set (map fst (enumerate_start 1 XP_THRESHOLDS))" by simp
    then show "1 \<le> fst p \<and> fst p \<le> 20"
      unfolding enumerate_thresholds_fst by auto
  qed
qed simp_all

lemma level_from_xp_range: "1 \<le> level_from_xp x \<and> level_from_xp x \<le> 20"
  using level_scan_table_range [of x] by (simp add: level_from_xp_def)

lemma level_from_xp_mono: "x1 \<le> x2 \<Longrightarrow> level_from_xp x1 \<le> level_from_xp x2"
proof -
  assume le: "x1 \<le> x2"
  have bnd: "\<forall>p \<in> set (enumerate_start 1 XP_THRESHOLDS). 1 \<le> fst p"
  proof
    fix p assume "p \<in> set (enumerate_start 1 XP_THRESHOLDS)"
    then have "fst p \<in> set (map fst (enumerate_start 1 XP_THRESHOLDS))" by simp
    then show "1 \<le> fst p" unfolding enumerate_thresholds_fst by auto
  qed
  have srt: "sorted (map fst (enumerate_start 1 XP_THRESHOLDS))"
    unfolding enumerate_thresholds_fst by simp
  have "level_scan x1 (enumerate_start 1 XP_THRESHOLDS) 1
        \<le> level_scan x2 (enumerate_start 1 XP_THRESHOLDS) 1"
    by (rule level_scan_mono [OF le _ bnd srt]) simp
  then show ?thesis by (simp add: level_from_xp_def)
qed

lemma level_scan_table_explicit:
  "level_scan x (enumerate_start 1 XP_THRESHOLDS) 1 =
     (if 355000 \<le> x then 20 else if 305000 \<le> x then 19 else if 265000 \<le> x then 18
      else if 225000 \<le> x then 17 else if 195000 \<le> x then 16 else if 165000 \<le> x then 15
      else if 140000 \<le> x then 14 else if 120000 \<le> x then 13 else if 100000 \<le> x then 12
      else if 85000 \<le> x then 11 else if 64000 \<le> x then 10 else if 48000 \<le> x then 9
      else if 34000 \<le> x then 8 else if 23000 \<le> x then 7 else if 14000 \<le> x then 6
      else if 6500 \<le> x then 5 else if 2700 \<le> x then 4 else if 900 \<le> x then 3
      else if 300 \<le> x then 2 else 1)"
  by (simp add: XP_THRESHOLDS_def)

lemma level_from_xp_explicit:
  "level_from_xp x =
     (if 355000 \<le> x then 20 else if 305000 \<le> x then 19 else if 265000 \<le> x then 18
      else if 225000 \<le> x then 17 else if 195000 \<le> x then 16 else if 165000 \<le> x then 15
      else if 140000 \<le> x then 14 else if 120000 \<le> x then 13 else if 100000 \<le> x then 12
      else if 85000 \<le> x then 11 else if 64000 \<le> x then 10 else if 48000 \<le> x then 9
      else if 34000 \<le> x then 8 else if 23000 \<le> x then 7 else if 14000 \<le> x then 6
      else if 6500 \<le> x then 5 else if 2700 \<le> x then 4 else if 900 \<le> x then 3
      else if 300 \<le> x then 2 else 1)"
proof -
  have "level_from_xp x = level_scan x (enumerate_start 1 XP_THRESHOLDS) 1"
    using level_scan_table_range [of x] by (simp add: level_from_xp_def)
  then show ?thesis by (simp only: level_scan_table_explicit)
qed

lemma list_getitem_in_range:
  "0 \<le> i \<Longrightarrow> i < int (length xs) \<Longrightarrow> list_getitem xs i = Inr (xs ! nat i)"
  by (simp add: list_getitem_def)

lemma length_XP_THRESHOLDS: "length XP_THRESHOLDS = 20"
  by (simp add: XP_THRESHOLDS_def)

lemma prev_threshold_ok:
  "1 \<le> lvl \<Longrightarrow> lvl \<le> 20 \<Longrightarrow> prev_threshold lvl = Inr (XP_THRESHOLDS ! nat (lvl - 1))"
  by (simp add: prev_threshold_def list_getitem_in_range length_XP_THRESHOLDS)

lemma next_threshold_ok:
  "1 \<le> lvl \<Longrightarrow> lvl < 20 \<Longrightarrow> next_threshold lvl = Inr (Some (XP_THRESHOLDS ! nat lvl))"
  by (simp add: next_threshold_def list_getitem_in_range length_XP_THRESHOLDS)

lemma next_threshold_max: "20 \<le> lvl \<Longrightarrow> next_threshold lvl = Inr None"
  by (simp add: next_threshold_def)

lemma remaining_to_next_cases:
  "remaining_to_next x =
     (if level_from_xp x = 20 then Inr None
      else Inr (Some (max 0 (XP_THRESHOLDS ! nat (level_from_xp x) - x))))"
proof (cases "level_from_xp x = 20")
  case True
  then show ?thesis by (simp add: remaining_to_next_def next_threshold_max)
next
  case False
  with level_from_xp_range [of x] have "1 \<le> level_from_xp x" "level_from_xp x < 20" by auto
  then have "next_threshold (level_from_xp x) = Inr (Some (XP_THRESHOLDS ! nat (level_from_xp x)))"
    by (rule next_threshold_ok)
  with False show ?thesis by (simp add: remaining_to_next_def)
qed

lemma progress_in_level_cases:
  "progress_in_level x =
     (if level_from_xp x = 20 then Inr (0, 0, 20)
      else Inr (max 0 (x - XP_THRESHOLDS ! nat (level_from_xp x - 1)),
                max 0 (XP_THRESHOLDS ! nat (level_from_xp x)
                       - XP_THRESHOLDS ! nat (level_from_xp x - 1)),
                level_from_xp x))"
proof (cases "level_from_xp x = 20")
  case True
  then show ?thesis by (simp add: progress_in_level_def)
next
  case False
  with level_from_xp_range [of x] have r: "1 \<le> level_from_xp x" "level_from_xp x < 20" by auto
  then have n: "next_threshold (level_from_xp x) = Inr (Some (XP_THRESHOLDS ! nat (level_from_xp x)))"
    by (rule next_threshold_ok)
  from r have p: "prev_threshold (level_from_xp x) = Inr (XP_THRESHOLDS ! nat (level_from_xp x - 1))"
    by (simp add: prev_threshold_ok)
  from False r n p show ?thesis by (simp add: progress_in_level_def Let_def)
qed

lemma prev_threshold_level:
  "1 \<le> L \<Longrightarrow> L \<le> 20 \<Longrightarrow>
   \<exists>t. prev_threshold L = Inr t \<and> level_from_xp t = L
       \<and> (2 \<le> L \<longrightarrow> level_from_xp (t - 1) = L - 1)"
proof -
  assume "1 \<le> L" "L \<le> 20"
  then have "L = 1 \<or> L = 2 \<or> L = 3 \<or> L = 4 \<or> L = 5 \<or> L = 6 \<or> L = 7 \<or> L = 8 \<or> L = 9 \<or> L = 10
     \<or> L = 11 \<or> L = 12 \<or> L = 13 \<or> L = 14 \<or> L = 15 \<or> L = 16 \<or> L = 17 \<or> L = 18 \<or> L = 19 \<or> L = 20"
    by arith
  then show ?thesis
    by (elim disjE)
       (simp_all add: prev_threshold_def list_getitem_def XP_THRESHOLDS_def level_from_xp_explicit)
qed

section \<open>The level lookup: range, monotonicity, thresholds\<close>

text \<open>
  Claim C3. For every xp from 0 on, \<open>level_from_xp\<close> lies between 1 and 20, and it is
  monotone: a larger total never has a smaller level.
\<close>

theorem level_from_xp_bounded_monotone:
  "0 \<le> x1 \<Longrightarrow> x1 \<le> x2 \<Longrightarrow>
   1 \<le> level_from_xp x1 \<and> level_from_xp x1 \<le> level_from_xp x2 \<and> level_from_xp x2 \<le> 20"
  using level_from_xp_range [of x1] level_from_xp_range [of x2] level_from_xp_mono [of x1 x2]
  by simp

text \<open>The theorem at the totals 299 and 300, which lie on both sides of the level 2 threshold.\<close>

theorem level_from_xp_bounded_monotone_witness:
  "(0::int) \<le> 299 \<and> (299::int) \<le> 300 \<and> 1 \<le> level_from_xp 299
   \<and> level_from_xp 299 \<le> level_from_xp 300 \<and> level_from_xp 300 \<le> 20
   \<and> level_from_xp 299 = 1 \<and> level_from_xp 300 = 2"
  using level_from_xp_bounded_monotone [of 299 300] by (simp add: level_from_xp_explicit)

text \<open>
  Claim C4. The threshold of a level \<open>L\<close> between 1 and 20 is the table entry
  \<^verbatim>\<open>XP_THRESHOLDS[L - 1]\<close>, which \<open>prev_threshold L\<close> reads. The level of that threshold is
  \<open>L\<close>, and from level 2 on the level of one xp less is \<open>L - 1\<close>.
\<close>

theorem level_at_threshold:
  "1 \<le> L \<Longrightarrow> L \<le> 20 \<Longrightarrow>
   \<exists>t. prev_threshold L = Inr t \<and> level_from_xp t = L
       \<and> (2 \<le> L \<longrightarrow> level_from_xp (t - 1) = L - 1)"
  by (rule prev_threshold_level)

text \<open>The theorem at level 5, whose threshold is 6500.\<close>

theorem level_at_threshold_witness:
  "(1::int) \<le> 5 \<and> (5::int) \<le> 20 \<and> prev_threshold 5 = Inr 6500 \<and> level_from_xp 6500 = 5
   \<and> level_from_xp (6500 - 1) = 5 - 1"
  using level_at_threshold [of 5]
  by (simp add: prev_threshold_def list_getitem_def XP_THRESHOLDS_def)

text \<open>
  Claim C7. For every xp from 0 on, \<open>progress_in_level\<close> returns \<open>(0, 0, 20)\<close> exactly at
  level 20, \<open>remaining_to_next\<close> returns \<^verbatim>\<open>None\<close> exactly at level 20, and below level 20
  it returns \<open>max 0 (nxt - xp)\<close> for the next threshold \<open>nxt\<close> of the level.
\<close>

theorem progress_and_remaining_at_max:
  "0 \<le> x \<Longrightarrow>
   (progress_in_level x = Inr (0, 0, 20) \<longleftrightarrow> level_from_xp x = 20)
   \<and> (remaining_to_next x = Inr None \<longleftrightarrow> level_from_xp x = 20)
   \<and> (level_from_xp x \<noteq> 20 \<longrightarrow>
        (\<exists>nxt. next_threshold (level_from_xp x) = Inr (Some nxt)
              \<and> remaining_to_next x = Inr (Some (max 0 (nxt - x)))))"
proof (cases "level_from_xp x = 20")
  case True
  then show ?thesis by (simp add: progress_in_level_cases remaining_to_next_cases)
next
  case False
  with level_from_xp_range [of x] have "1 \<le> level_from_xp x" "level_from_xp x < 20" by auto
  then have "next_threshold (level_from_xp x) = Inr (Some (XP_THRESHOLDS ! nat (level_from_xp x)))"
    by (rule next_threshold_ok)
  with False show ?thesis by (simp add: progress_in_level_cases remaining_to_next_cases)
qed

text \<open>The theorem at 400000 xp (level 20) and at 250 xp (level 1, 50 xp short of level 2).\<close>

theorem progress_and_remaining_at_max_witness:
  "(0::int) \<le> 400000 \<and> progress_in_level 400000 = Inr (0, 0, 20)
   \<and> remaining_to_next 400000 = Inr None \<and> level_from_xp 400000 = 20
   \<and> (0::int) \<le> 250 \<and> level_from_xp 250 \<noteq> 20
   \<and> next_threshold (level_from_xp 250) = Inr (Some 300)
   \<and> remaining_to_next 250 = Inr (Some 50)"
  using progress_and_remaining_at_max [of 400000] progress_and_remaining_at_max [of 250]
  by (simp add: level_from_xp_explicit next_threshold_def list_getitem_def XP_THRESHOLDS_def)


section \<open>Facts about the store and the operations\<close>

lemma load_db_save_db: "load_db (save_db d f) = d"
  by (simp add: load_db_def save_db_def Let_def)

lemma guild_bucket_writeback:
  "AList.update g G (fst (guild_bucket d g)) = AList.update g G d"
  by (simp add: guild_bucket_def split: option.split)

lemma ensure_member_writeback:
  "AList.update u M (members (fst (ensure_member gr u))) = AList.update u M (members gr)"
  by (simp add: ensure_member_def split: option.split)

lemma get_xp_ensure_member:
  "get_xp (snd (ensure_member gr u)) = (case map_of (members gr) u of None \<Rightarrow> 0 | Some m \<Rightarrow> get_xp m)"
  by (simp add: ensure_member_def get_xp_def split: option.split)

lemma members_guild_bucket:
  "map_of (members (snd (guild_bucket d g))) u
   = (case map_of d g of None \<Rightarrow> None | Some gr \<Rightarrow> map_of (members gr) u)"
  by (simp add: guild_bucket_def split: option.split)

lemma stored_xp_bucket:
  "stored_xp f g u = map_option get_xp (map_of (members (snd (guild_bucket (load_db f) g))) u)"
  by (simp add: stored_xp_def members_guild_bucket split: option.split)

lemma stored_xp_after_write:
  "stored_xp (save_db (AList.update g \<lparr>members = AList.update u m (members (snd (guild_bucket (load_db f) g)))\<rparr> (load_db f)) f) g' u'
   = (if g' = g \<and> u' = u then Some (get_xp m) else stored_xp f g' u')"
  by (simp add: stored_xp_def load_db_save_db update_conv' guild_bucket_def split: option.split)

lemma member_update_xp: "m\<lparr>xp := v\<rparr> = \<lparr>xp = v\<rparr>"
  by (cases m) simp

lemma guild_update_members: "gr\<lparr>members := ms\<rparr> = \<lparr>members = ms\<rparr>"
  by (cases gr) simp

lemma remaining_to_next_Inr: "\<exists>r. remaining_to_next x = Inr r"
  by (simp add: remaining_to_next_cases)

lemma progress_in_level_Inr: "\<exists>c n. progress_in_level x = Inr (c, n, level_from_xp x)"
  by (simp add: progress_in_level_cases)

lemma add_xp_for_member_eq:
  fixes f g u amount
  defines "x \<equiv> (case stored_xp f g u of None \<Rightarrow> 0 | Some v \<Rightarrow> v)"
  defines "n \<equiv> max 0 (x + amount)"
  shows "add_xp_for_member f g u amount =
     (Inr \<lparr>user = u, add = amount, after_xp = n, after_lvl = level_from_xp n,
           leveled = (level_from_xp n > level_from_xp x),
           rem = (if level_from_xp n = 20 then None
                  else Some (max 0 (XP_THRESHOLDS ! nat (level_from_xp n) - n))),
           cur_in_level = fst (projr (progress_in_level n)),
           need_for_level = fst (snd (projr (progress_in_level n)))\<rparr>,
      save_db (written_db f g u n) f)"
proof -
  obtain c nd where p: "progress_in_level n = Inr (c, nd, level_from_xp n)"
    using progress_in_level_Inr by blast
  have x: "get_xp (snd (ensure_member (snd (guild_bucket (load_db f) g)) u)) = x"
    by (simp add: get_xp_ensure_member x_def stored_xp_bucket split: option.split)
  show ?thesis
    unfolding add_xp_for_member_def Let_def
    by (simp add: split_beta x member_update_xp guild_update_members ensure_member_writeback
        guild_bucket_writeback get_xp_def [of "\<lparr>xp = _\<rparr>"] n_def [symmetric] remaining_to_next_cases p
        written_db_def)
qed

lemma list_all_update:
  "list_all (\<lambda>p. Q (snd p)) al \<Longrightarrow> Q v \<Longrightarrow> list_all (\<lambda>p. Q (snd p)) (AList.update k v al)"
  by (induction al) auto

lemma xp_nonneg_bucket:
  "xp_nonneg d \<Longrightarrow> list_all (\<lambda>me. 0 \<le> get_xp (snd me)) (members (snd (guild_bucket d g)))"
proof (cases "map_of d g")
  case None
  then show ?thesis by (simp add: guild_bucket_def)
next
  case (Some gr)
  assume "xp_nonneg d"
  moreover from Some have "(g, gr) \<in> set d" by (rule map_of_SomeD)
  ultimately have "list_all (\<lambda>me. 0 \<le> get_xp (snd me)) (members gr)"
    by (auto simp: xp_nonneg_def list_all_iff)
  with Some show ?thesis by (simp add: guild_bucket_def)
qed

lemma xp_nonneg_written_db:
  assumes "xp_nonneg (load_db f)" "0 \<le> v"
  shows "xp_nonneg (written_db f g u v)"
proof -
  have "list_all (\<lambda>me. 0 \<le> get_xp (snd me))
          (AList.update u \<lparr>xp = Some v\<rparr> (members (snd (guild_bucket (load_db f) g))))"
    using xp_nonneg_bucket [OF assms(1)] assms(2)
    by (intro list_all_update) (simp_all add: get_xp_def)
  then show ?thesis
    using assms(1) unfolding xp_nonneg_def written_db_def
    by (intro list_all_update) simp_all
qed

lemma stored_xp_written_db:
  "stored_xp (save_db (written_db f g u v) f) g' u'
   = (if g' = g \<and> u' = u then Some v else stored_xp f g' u')"
  using stored_xp_after_write [of g u "\<lparr>xp = Some v\<rparr>" f g' u']
  by (simp add: written_db_def get_xp_def)

lemma add_xp_for_member_nonneg:
  "xp_nonneg (load_db f) \<Longrightarrow> xp_nonneg (load_db (snd (add_xp_for_member f g u amount)))"
  by (simp add: add_xp_for_member_eq load_db_save_db xp_nonneg_written_db)

lemma XP_THRESHOLDS_nonneg: "t \<in> set XP_THRESHOLDS \<Longrightarrow> 0 \<le> t"
  by (auto simp: XP_THRESHOLDS_def)

lemma list_getitem_in_set: "list_getitem xs i = Inr t \<Longrightarrow> t \<in> set xs"
  by (auto simp: list_getitem_def split: if_splits)

lemma join_existing:
  assumes "stored_xp f gid target = Some x"
    and "(case user_arg of None \<Rightarrow> invoker | Some u \<Rightarrow> u) = target"
    and "target = invoker \<or> is_moderator"
  shows "join f (Some gid) invoker is_moderator user_arg level xp_arg =
     (Inr (AlreadyInParty (level_from_xp x) x
             (if level_from_xp x = 20 then None
              else Some (max 0 (XP_THRESHOLDS ! nat (level_from_xp x) - x)))), f)"
proof -
  from assms(1) obtain m
    where m: "map_of (members (snd (guild_bucket (load_db f) gid))) target = Some m" "get_xp m = x"
    by (auto simp: stored_xp_bucket)
  show ?thesis
    unfolding join_def Let_def using assms(2,3) m
    by (simp add: split_beta remaining_to_next_cases)
qed

lemma join_new:
  assumes "stored_xp f gid target = None"
    and "(case user_arg of None \<Rightarrow> invoker | Some u \<Rightarrow> u) = target"
    and "target = invoker \<or> is_moderator"
    and "list_getitem XP_THRESHOLDS (level - 1) = Inr min_xp"
  shows "join f (Some gid) invoker is_moderator user_arg level xp_arg =
     (Inr (Joined (level_from_xp (max xp_arg min_xp)) (max xp_arg min_xp)
             (if level_from_xp (max xp_arg min_xp) = 20 then None
              else Some (max 0 (XP_THRESHOLDS ! nat (level_from_xp (max xp_arg min_xp))
                                - max xp_arg min_xp)))),
      save_db (written_db f gid target (max xp_arg min_xp)) f)"
proof -
  from assms(1)
  have m: "map_of (members (snd (guild_bucket (load_db f) gid))) target = None"
    by (simp add: stored_xp_bucket)
  have mx: "(if xp_arg < min_xp then min_xp else xp_arg) = max xp_arg min_xp" by simp
  show ?thesis
    unfolding join_def Let_def using assms(2,3,4) m
    by (auto simp add: split_beta mx guild_update_members guild_bucket_writeback written_db_def
        remaining_to_next_cases)
qed

lemma join_error:
  assumes "list_getitem XP_THRESHOLDS (level - 1) = Inl e"
  shows "snd (join f guild_id invoker is_moderator user_arg level xp_arg) = f"
  unfolding join_def Let_def using assms
  by (simp add: split_beta remaining_to_next_cases split: option.split)

lemma setlevel_ok:
  assumes "list_getitem XP_THRESHOLDS (level - 1) = Inr t"
  shows "setlevel f True g u level =
     (Inr (LevelSet level t (projr (progress_in_level t))
             (if level_from_xp t = 20 then None
              else Some (max 0 (XP_THRESHOLDS ! nat (level_from_xp t) - t)))),
      save_db (written_db f g u t) f)"
proof -
  obtain c n where p: "progress_in_level t = Inr (c, n, level_from_xp t)"
    using progress_in_level_Inr by blast
  show ?thesis
    unfolding setlevel_def Let_def using assms
    by (simp add: split_beta member_update_xp guild_update_members ensure_member_writeback
        guild_bucket_writeback get_xp_def [of "\<lparr>xp = _\<rparr>"] remaining_to_next_cases p written_db_def)
qed

lemma setlevel_not_admin: "\<not> is_admin \<Longrightarrow> setlevel f is_admin g u level = (Inr NeedAdmin, f)"
  by (simp add: setlevel_def)

lemma setlevel_error:
  "list_getitem XP_THRESHOLDS (level - 1) = Inl e \<Longrightarrow> snd (setlevel f is_admin g u level) = f"
  unfolding setlevel_def Let_def by (simp add: split_beta)

lemma setlevel_nonneg:
  assumes "xp_nonneg (load_db f)"
  shows "xp_nonneg (load_db (snd (setlevel f is_admin g u level)))"
proof (cases "list_getitem XP_THRESHOLDS (level - 1)")
  case (Inl e)
  then show ?thesis using assms by (simp add: setlevel_error)
next
  case (Inr t)
  then have "0 \<le> t" by (intro XP_THRESHOLDS_nonneg list_getitem_in_set)
  show ?thesis
  proof (cases is_admin)
    case True
    with Inr \<open>0 \<le> t\<close> assms show ?thesis
      by (simp add: setlevel_ok load_db_save_db xp_nonneg_written_db)
  next
    case False
    then show ?thesis using assms by (simp add: setlevel_not_admin)
  qed
qed

lemma join_nonneg:
  assumes "xp_nonneg (load_db f)"
  shows "xp_nonneg (load_db (snd (join f guild_id invoker is_moderator user_arg level xp_arg)))"
proof (cases guild_id)
  case None
  then show ?thesis using assms by (simp add: join_def)
next
  case (Some gid)
  define target where "target = (case user_arg of None \<Rightarrow> invoker | Some u \<Rightarrow> u)"
  show ?thesis
  proof (cases "target = invoker \<or> is_moderator")
    case False
    then show ?thesis using assms Some by (simp add: join_def target_def Let_def)
  next
    case allowed: True
    show ?thesis
    proof (cases "stored_xp f gid target")
      case (Some x)
      from join_existing [OF Some target_def [symmetric] allowed] assms \<open>guild_id = Some gid\<close>
      show ?thesis by simp
    next
      case None
      show ?thesis
      proof (cases "list_getitem XP_THRESHOLDS (level - 1)")
        case (Inl e)
        then show ?thesis using assms by (simp add: join_error)
      next
        case (Inr t)
        then have "0 \<le> t" by (intro XP_THRESHOLDS_nonneg list_getitem_in_set)
        then have "0 \<le> max xp_arg t" by simp
        with join_new [OF None target_def [symmetric] allowed Inr] assms \<open>guild_id = Some gid\<close>
        show ?thesis by (simp add: load_db_save_db xp_nonneg_written_db)
      qed
    qed
  qed
qed

lemma addxp_nonneg:
  "xp_nonneg (load_db f) \<Longrightarrow> xp_nonneg (load_db (snd (addxp f g u amount)))"
  using add_xp_for_member_nonneg [of f g u amount]
  by (simp add: addxp_def add_xp_for_member_eq)

lemma addxp_all_loop_nonneg:
  "xp_nonneg (load_db f)
   \<Longrightarrow> xp_nonneg (load_db (snd (addxp_all_loop get_member f g amount ids infos lv)))"
proof (induction ids arbitrary: f infos lv)
  case Nil
  then show ?case by simp
next
  case (Cons uid ids)
  show ?case
  proof (cases "get_member uid")
    case False
    with Cons show ?thesis by simp
  next
    case True
    have "xp_nonneg (load_db (save_db (written_db f g uid
             (max 0 ((case stored_xp f g uid of None \<Rightarrow> 0 | Some v \<Rightarrow> v) + amount))) f))"
      using Cons.prems by (simp add: load_db_save_db xp_nonneg_written_db)
    from Cons.IH [OF this] True show ?thesis
      by (simp add: add_xp_for_member_eq)
  qed
qed

lemma addxp_all_nonneg:
  "xp_nonneg (load_db f) \<Longrightarrow> xp_nonneg (load_db (snd (addxp_all get_member f g amount)))"
  using addxp_all_loop_nonneg [of f get_member g amount]
  by (simp add: addxp_all_def Let_def split_beta split: prod.split sum.split)

lemma update_absent: "map_of al k = None \<Longrightarrow> AList.update k v al = al @ [(k, v)]"
  by (induction al) (auto split: if_splits)

lemma status_fs: "snd (status f g invoker user_arg) = f"
  unfolding status_def Let_def
  by (simp add: split_beta remaining_to_next_cases progress_in_level_cases split: option.split)

lemma party_fs: "snd (party display_name lower f g) = f"
  unfolding party_def Let_def
  by (simp add: split_beta split: sum.split)

section \<open>Awarding XP\<close>

text \<open>
  Claim C1, as the code has it. When the stored xp of the member is \<open>x \<ge> 0\<close>,
  \<open>add_xp_for_member\<close> returns without an error, the file then holds
  \<open>max 0 (x + amount)\<close> for the member, and the returned dictionary carries that value as
  \<open>after_xp\<close>, its level as \<open>after_lvl\<close>, and \<open>leveled\<close> exactly when that level is above
  the level of \<open>x\<close>. No operation makes an xp negative: a store without a negative xp
  stays so under \<open>add_xp_for_member\<close>, \<open>addxp\<close>, \<open>addxp_all\<close>, \<open>join\<close> and \<open>setlevel\<close>,
  whatever their arguments.
\<close>

theorem add_xp_for_member_effect:
  assumes "stored_xp f g u = Some x" and "0 \<le> x"
  shows "\<exists>info. fst (add_xp_for_member f g u amount) = Inr info
           \<and> stored_xp (snd (add_xp_for_member f g u amount)) g u = Some (max 0 (x + amount))
           \<and> after_xp info = max 0 (x + amount)
           \<and> after_lvl info = level_from_xp (max 0 (x + amount))
           \<and> (leveled info \<longleftrightarrow> level_from_xp (max 0 (x + amount)) > level_from_xp x)
           \<and> (xp_nonneg (load_db f) \<longrightarrow>
                 xp_nonneg (load_db (snd (add_xp_for_member f g u amount)))
               \<and> xp_nonneg (load_db (snd (addxp f g' u' amount')))
               \<and> xp_nonneg (load_db (snd (addxp_all get_member f g' amount')))
               \<and> xp_nonneg (load_db (snd (join f guild_arg invoker is_moderator user_arg level xp_arg)))
               \<and> xp_nonneg (load_db (snd (setlevel f is_admin g' u' level))))"
  using assms
  by (simp add: add_xp_for_member_eq stored_xp_written_db load_db_save_db xp_nonneg_written_db
      addxp_nonneg addxp_all_nonneg join_nonneg setlevel_nonneg)

text \<open>
  The theorem for a member with 300 xp who is awarded \<open>-500\<close>: the xp is clamped to 0 at
  level 1 and no level was gained.
\<close>

theorem add_xp_for_member_effect_witness:
  "stored_xp \<lparr>data_file = Some [(7, \<lparr>members = [(3, \<lparr>xp = Some 300\<rparr>)]\<rparr>)], tmp_file = None\<rparr> 7 3 = Some 300
   \<and> (0::int) \<le> 300
   \<and> xp_nonneg (load_db \<lparr>data_file = Some [(7, \<lparr>members = [(3, \<lparr>xp = Some 300\<rparr>)]\<rparr>)], tmp_file = None\<rparr>)
   \<and> (\<exists>info. fst (add_xp_for_member
                      \<lparr>data_file = Some [(7, \<lparr>members = [(3, \<lparr>xp = Some 300\<rparr>)]\<rparr>)], tmp_file = None\<rparr>
                      7 3 (- 500)) = Inr info
          \<and> stored_xp (snd (add_xp_for_member
                      \<lparr>data_file = Some [(7, \<lparr>members = [(3, \<lparr>xp = Some 300\<rparr>)]\<rparr>)], tmp_file = None\<rparr>
                      7 3 (- 500))) 7 3 = Some 0
          \<and> after_xp info = 0 \<and> after_lvl info = 1 \<and> \<not> leveled info)"
proof -
  let ?f = "\<lparr>data_file = Some [(7, \<lparr>members = [(3, \<lparr>xp = Some 300\<rparr>)]\<rparr>)], tmp_file = None\<rparr>"
  have s: "stored_xp ?f 7 3 = Some 300"
    by (simp add: stored_xp_def load_db_def get_xp_def)
  have n: "xp_nonneg (load_db ?f)"
    by (simp add: xp_nonneg_def load_db_def get_xp_def)
  have l: "level_from_xp 0 = 1" "level_from_xp 300 = 2"
    by (simp_all add: level_from_xp_explicit)
  have "(0::int) \<le> 300" by simp
  from add_xp_for_member_effect [OF s this, where amount = "- 500" and g' = 7 and u' = 3
      and amount' = 0 and get_member = "\<lambda>_. True" and guild_arg = None and invoker = 3
      and is_moderator = False and user_arg = None and level = 1 and xp_arg = 0
      and is_admin = False] s n l
  show ?thesis by auto
qed

text \<open>
  The level before the award is not part of what \<open>add_xp_for_member\<close> returns: from
  0 xp (level 1) and from 300 xp (level 2) an award of \<open>-500\<close> returns the same
  dictionary.
\<close>

theorem add_xp_for_member_hides_before_level:
  "stored_xp \<lparr>data_file = Some [(7, \<lparr>members = [(3, \<lparr>xp = Some 0\<rparr>)]\<rparr>)], tmp_file = None\<rparr> 7 3 = Some 0
   \<and> stored_xp \<lparr>data_file = Some [(7, \<lparr>members = [(3, \<lparr>xp = Some 300\<rparr>)]\<rparr>)], tmp_file = None\<rparr> 7 3 = Some 300
   \<and> level_from_xp 0 = 1 \<and> level_from_xp 300 = 2
   \<and> fst (add_xp_for_member
             \<lparr>data_file = Some [(7, \<lparr>members = [(3, \<lparr>xp = Some 0\<rparr>)]\<rparr>)], tmp_file = None\<rparr> 7 3 (- 500))
     = fst (add_xp_for_member
             \<lparr>data_file = Some [(7, \<lparr>members = [(3, \<lparr>xp = Some 300\<rparr>)]\<rparr>)], tmp_file = None\<rparr> 7 3 (- 500))"
  by (simp add: add_xp_for_member_eq stored_xp_def load_db_def get_xp_def level_from_xp_explicit)

section \<open>Joining and setting a level\<close>

text \<open>
  Claim C5. For a caller who may add the target (the target is the invoker, or the
  invoker is a moderator): when the target has a record, \<open>join\<close> leaves both files as
  they are and answers with the level, xp and remaining xp of that record; when the
  target has none and the level is between 1 and 20, the file then holds
  \<open>max xp_arg t\<close> for the target, \<open>t\<close> being the threshold of the level, and with the
  defaults (level 1 and 0 xp) that is 0 xp at level 1.
\<close>

theorem join_existing_or_new:
  assumes "(case user_arg of None \<Rightarrow> invoker | Some u \<Rightarrow> u) = target"
    and "target = invoker \<or> is_moderator"
  shows "(\<forall>x. stored_xp f gid target = Some x \<longrightarrow>
            (\<exists>r. remaining_to_next x = Inr r
                \<and> join f (Some gid) invoker is_moderator user_arg level xp_arg
                    = (Inr (AlreadyInParty (level_from_xp x) x r), f)))
       \<and> (stored_xp f gid target = None \<and> 1 \<le> level \<and> level \<le> 20 \<longrightarrow>
            (\<exists>t r. prev_threshold level = Inr t
                \<and> remaining_to_next (max xp_arg t) = Inr r
                \<and> fst (join f (Some gid) invoker is_moderator user_arg level xp_arg)
                    = Inr (Joined (level_from_xp (max xp_arg t)) (max xp_arg t) r)
                \<and> stored_xp (snd (join f (Some gid) invoker is_moderator user_arg level xp_arg))
                     gid target = Some (max xp_arg t)
                \<and> (level = 1 \<and> xp_arg = 0 \<longrightarrow>
                      max xp_arg t = 0 \<and> level_from_xp (max xp_arg t) = 1)))"
proof (intro conjI allI impI)
  fix x assume "stored_xp f gid target = Some x"
  from join_existing [OF this assms]
  show "\<exists>r. remaining_to_next x = Inr r
          \<and> join f (Some gid) invoker is_moderator user_arg level xp_arg
              = (Inr (AlreadyInParty (level_from_xp x) x r), f)"
    by (simp add: remaining_to_next_cases)
next
  assume a: "stored_xp f gid target = None \<and> 1 \<le> level \<and> level \<le> 20"
  then obtain t where t: "prev_threshold level = Inr t" "level_from_xp t = level"
    using prev_threshold_level [of level] by blast
  then have g: "list_getitem XP_THRESHOLDS (level - 1) = Inr t"
    by (simp add: prev_threshold_def)
  have d: "level = 1 \<and> xp_arg = 0 \<longrightarrow> max xp_arg t = 0 \<and> level_from_xp (max xp_arg t) = 1"
    using t by (auto simp: prev_threshold_def list_getitem_def XP_THRESHOLDS_def
        level_from_xp_explicit)
  have l0: "level_from_xp 0 = 1" by (simp add: level_from_xp_explicit)
  from a have absent: "stored_xp f gid target = None" by simp
  from join_new [OF absent assms g, of xp_arg] t(1) d
  show "\<exists>t r. prev_threshold level = Inr t
          \<and> remaining_to_next (max xp_arg t) = Inr r
          \<and> fst (join f (Some gid) invoker is_moderator user_arg level xp_arg)
              = Inr (Joined (level_from_xp (max xp_arg t)) (max xp_arg t) r)
          \<and> stored_xp (snd (join f (Some gid) invoker is_moderator user_arg level xp_arg))
               gid target = Some (max xp_arg t)
          \<and> (level = 1 \<and> xp_arg = 0 \<longrightarrow>
                max xp_arg t = 0 \<and> level_from_xp (max xp_arg t) = 1)"
    by (simp add: stored_xp_written_db remaining_to_next_cases l0)
qed

text \<open>
  The theorem for a member with 950 xp who joins again asking for level 4 and 5000 xp,
  and for a first join with the defaults when no data file exists yet.
\<close>

theorem join_existing_or_new_witness:
  "(case None of None \<Rightarrow> (3::int) | Some u \<Rightarrow> u) = 3 \<and> ((3::int) = 3 \<or> False)
   \<and> stored_xp \<lparr>data_file = Some [(7, \<lparr>members = [(3, \<lparr>xp = Some 950\<rparr>)]\<rparr>)], tmp_file = None\<rparr> 7 3
       = Some 950
   \<and> join \<lparr>data_file = Some [(7, \<lparr>members = [(3, \<lparr>xp = Some 950\<rparr>)]\<rparr>)], tmp_file = None\<rparr>
        (Some 7) 3 False None 4 5000
       = (Inr (AlreadyInParty 3 950 (Some 1750)),
          \<lparr>data_file = Some [(7, \<lparr>members = [(3, \<lparr>xp = Some 950\<rparr>)]\<rparr>)], tmp_file = None\<rparr>)
   \<and> stored_xp \<lparr>data_file = None, tmp_file = None\<rparr> 7 3 = None
   \<and> (1::int) \<le> 1 \<and> (1::int) \<le> 20 \<and> (1::int) = 1 \<and> (0::int) = 0
   \<and> prev_threshold 1 = Inr 0
   \<and> fst (join \<lparr>data_file = None, tmp_file = None\<rparr> (Some 7) 3 False None 1 0)
       = Inr (Joined 1 0 (Some 300))
   \<and> stored_xp (snd (join \<lparr>data_file = None, tmp_file = None\<rparr> (Some 7) 3 False None 1 0)) 7 3
       = Some 0"
proof -
  let ?f = "\<lparr>data_file = Some [(7, \<lparr>members = [(3, \<lparr>xp = Some 950\<rparr>)]\<rparr>)], tmp_file = None\<rparr>"
  let ?e = "\<lparr>data_file = None, tmp_file = None\<rparr>"
  have s: "stored_xp ?f 7 3 = Some 950" "stored_xp ?e 7 3 = None"
    by (simp_all add: stored_xp_def load_db_def get_xp_def)
  have p: "prev_threshold 1 = Inr 0"
    by (simp add: prev_threshold_def list_getitem_def XP_THRESHOLDS_def)
  have r: "remaining_to_next 950 = Inr (Some 1750)" "remaining_to_next 0 = Inr (Some 300)"
    "level_from_xp 950 = 3" "level_from_xp 0 = 1"
    by (simp_all add: remaining_to_next_cases level_from_xp_explicit XP_THRESHOLDS_def)
  have c: "(case None of None \<Rightarrow> (3::int) | Some u \<Rightarrow> u) = 3" "(3::int) = 3 \<or> False"
    by simp_all
  from join_existing_or_new [OF c, of ?f 7 4 5000] join_existing_or_new [OF c, of ?e 7 1 0] s p r
  show ?thesis
    by (auto simp: join_new [OF s(2) c] join_existing [OF s(1) c])
qed

text \<open>
  Claim C6. For an administrator and a level \<open>L\<close> between 1 and 20, after \<open>setlevel\<close>
  the file holds exactly the threshold of \<open>L\<close> for the member, whatever it held before,
  and the level of that xp is \<open>L\<close>; for level 5 it is 6500.
\<close>

theorem setlevel_snaps_to_threshold:
  "1 \<le> L \<Longrightarrow> L \<le> 20 \<Longrightarrow>
   \<exists>t prog r. prev_threshold L = Inr t
     \<and> fst (setlevel f True g u L) = Inr (LevelSet L t prog r)
     \<and> stored_xp (snd (setlevel f True g u L)) g u = Some t
     \<and> level_from_xp t = L
     \<and> (L = 5 \<longrightarrow> t = 6500)"
proof -
  assume L: "1 \<le> L" "L \<le> 20"
  from prev_threshold_level [OF L] obtain t
    where t: "prev_threshold L = Inr t" "level_from_xp t = L" by blast
  from t(1) have g: "list_getitem XP_THRESHOLDS (L - 1) = Inr t" by (simp add: prev_threshold_def)
  have "L = 5 \<longrightarrow> t = 6500"
    using t(1) by (auto simp: prev_threshold_def list_getitem_def XP_THRESHOLDS_def)
  moreover obtain c n l where "projr (progress_in_level t) = (c, n, l)"
    by (cases "projr (progress_in_level t)")
  ultimately show ?thesis
    using t g by (simp add: setlevel_ok stored_xp_written_db)
qed

text \<open>The theorem for a member who had 20000 xp and is set to level 5.\<close>

theorem setlevel_snaps_to_threshold_witness:
  "(1::int) \<le> 5 \<and> (5::int) \<le> 20
   \<and> stored_xp \<lparr>data_file = Some [(7, \<lparr>members = [(3, \<lparr>xp = Some 20000\<rparr>)]\<rparr>)], tmp_file = None\<rparr> 7 3
       = Some 20000
   \<and> prev_threshold 5 = Inr 6500
   \<and> stored_xp (snd (setlevel
         \<lparr>data_file = Some [(7, \<lparr>members = [(3, \<lparr>xp = Some 20000\<rparr>)]\<rparr>)], tmp_file = None\<rparr>
         True 7 3 5)) 7 3 = Some 6500
   \<and> level_from_xp 6500 = 5"
  using setlevel_snaps_to_threshold
    [of 5 "\<lparr>data_file = Some [(7, \<lparr>members = [(3, \<lparr>xp = Some 20000\<rparr>)]\<rparr>)], tmp_file = None\<rparr>" 7 3]
  by (auto simp: stored_xp_def [of "\<lparr>data_file = Some _, tmp_file = None\<rparr>"] load_db_def get_xp_def)

section \<open>The read-only commands and the files\<close>

text \<open>
  Claim C10. \<open>status\<close> and \<open>party\<close> leave the data file and the temporary file as they
  found them, for every state of the files. For a guild id the store does not know,
  \<open>guild_bucket\<close> appends an empty bucket to the database in memory; the commands then
  answer that the member is not in the party, or that the party is empty, and still
  leave the files alone.
\<close>

theorem read_only_commands_leave_files:
  "snd (status f g invoker user_arg) = f
   \<and> snd (party display_name lower f g) = f
   \<and> (map_of (load_db f) g = None \<longrightarrow>
        fst (guild_bucket (load_db f) g) = load_db f @ [(g, \<lparr>members = []\<rparr>)]
      \<and> (\<exists>self. status f g invoker user_arg = (Inr (NotInParty self), f))
      \<and> party display_name lower f g = (Inr PartyEmpty, f))"
proof (intro conjI impI)
  show "snd (status f g invoker user_arg) = f" by (rule status_fs)
  show "snd (party display_name lower f g) = f" by (rule party_fs)
next
  assume n: "map_of (load_db f) g = None"
  then show "fst (guild_bucket (load_db f) g) = load_db f @ [(g, \<lparr>members = []\<rparr>)]"
    by (simp add: guild_bucket_def update_absent)
  from n show "\<exists>self. status f g invoker user_arg = (Inr (NotInParty self), f)"
    by (simp add: status_def guild_bucket_def)
  from n show "party display_name lower f g = (Inr PartyEmpty, f)"
    by (simp add: party_def guild_bucket_def)
qed

text \<open>The theorem for a store that knows guild 7 and is asked about guild 8.\<close>

theorem read_only_commands_leave_files_witness:
  "map_of (load_db \<lparr>data_file = Some [(7, \<lparr>members = [(3, \<lparr>xp = Some 950\<rparr>)]\<rparr>)], tmp_file = None\<rparr>) 8 = None
   \<and> snd (status \<lparr>data_file = Some [(7, \<lparr>members = [(3, \<lparr>xp = Some 950\<rparr>)]\<rparr>)], tmp_file = None\<rparr> 8 3 None)
       = \<lparr>data_file = Some [(7, \<lparr>members = [(3, \<lparr>xp = Some 950\<rparr>)]\<rparr>)], tmp_file = None\<rparr>
   \<and> fst (guild_bucket (load_db \<lparr>data_file = Some [(7, \<lparr>members = [(3, \<lparr>xp = Some 950\<rparr>)]\<rparr>)], tmp_file = None\<rparr>) 8)
       = [(7, \<lparr>members = [(3, \<lparr>xp = Some 950\<rparr>)]\<rparr>), (8, \<lparr>members = []\<rparr>)]
   \<and> party (\<lambda>_. None) (\<lambda>s. s) \<lparr>data_file = Some [(7, \<lparr>members = [(3, \<lparr>xp = Some 950\<rparr>)]\<rparr>)], tmp_file = None\<rparr> 8
       = (Inr PartyEmpty, \<lparr>data_file = Some [(7, \<lparr>members = [(3, \<lparr>xp = Some 950\<rparr>)]\<rparr>)], tmp_file = None\<rparr>)"
proof -
  let ?f = "\<lparr>data_file = Some [(7, \<lparr>members = [(3, \<lparr>xp = Some 950\<rparr>)]\<rparr>)], tmp_file = None\<rparr>"
  have n: "map_of (load_db ?f) 8 = None" by (simp add: load_db_def)
  have l: "load_db ?f = [(7, \<lparr>members = [(3, \<lparr>xp = Some 950\<rparr>)]\<rparr>)]" by (simp add: load_db_def)
  from read_only_commands_leave_files [of ?f 8 3 None "\<lambda>_. None" "\<lambda>s. s"] n l
  show ?thesis by simp
qed

section \<open>Awards that wait for the lock\<close>

lemma stored_xp_add_xp_for_member:
  "stored_xp f g u = Some x
   \<Longrightarrow> stored_xp (snd (add_xp_for_member f g u amount)) g u = Some (clamped_add x amount)"
  by (simp add: add_xp_for_member_eq stored_xp_written_db clamped_add_def)

lemma mset_without_nth:
  "i < length ds \<Longrightarrow> add_mset (ds ! i) (mset (take i ds) + mset (drop (Suc i) ds)) = mset ds"
proof -
  assume "i < length ds"
  then have "ds = take i ds @ ds ! i # drop (Suc i) ds" by (rule id_take_nth_drop)
  then have "mset ds = mset (take i ds @ ds ! i # drop (Suc i) ds)" by simp
  then show ?thesis by simp
qed

lemma serialized_is_fold:
  "serialized g u f ds f' \<Longrightarrow> stored_xp f g u = Some x
   \<Longrightarrow> \<exists>order. mset order = mset ds \<and> stored_xp f' g u = Some (foldl clamped_add x order)"
proof (induction arbitrary: x rule: serialized.induct)
  case (finished f)
  then show ?case by (intro exI [of _ "[]"]) simp
next
  case (next_call i ds f f')
  from next_call.prems
  have "stored_xp (snd (add_xp_for_member f g u (ds ! i))) g u = Some (clamped_add x (ds ! i))"
    by (rule stored_xp_add_xp_for_member)
  from next_call.IH [OF this] obtain rest
    where rest: "mset rest = mset (take i ds @ drop (Suc i) ds)"
      "stored_xp f' g u = Some (foldl clamped_add (clamped_add x (ds ! i)) rest)"
    by blast
  from rest(1) next_call.hyps(1) have "mset (ds ! i # rest) = mset ds"
    by (simp add: mset_without_nth)
  moreover from rest(2) have "stored_xp f' g u = Some (foldl clamped_add x (ds ! i # rest))"
    by simp
  ultimately show ?case by blast
qed

lemma foldl_clamped_add_lower: "x + sum_list ds \<le> foldl clamped_add x ds"
proof (induction ds arbitrary: x)
  case Nil
  then show ?case by simp
next
  case (Cons d ds)
  have "x + d \<le> clamped_add x d" by (simp add: clamped_add_def)
  with Cons [of "clamped_add x d"] show ?case by simp
qed

lemma foldl_clamped_add_nonneg: "0 \<le> x \<Longrightarrow> 0 \<le> foldl clamped_add x ds"
proof (induction ds arbitrary: x)
  case Nil
  then show ?case by simp
next
  case (Cons d ds)
  have "0 \<le> clamped_add x d" by (simp add: clamped_add_def)
  from Cons.IH [OF this] show ?case by simp
qed

lemma foldl_clamped_add_gains:
  "0 \<le> x \<Longrightarrow> \<forall>d \<in> set ds. 0 \<le> d \<Longrightarrow> foldl clamped_add x ds = x + sum_list ds"
proof (induction ds arbitrary: x)
  case Nil
  then show ?case by simp
next
  case (Cons d ds)
  from Cons.prems have c: "clamped_add x d = x + d" "0 \<le> x + d" by (simp_all add: clamped_add_def)
  from Cons.prems have "\<forall>e \<in> set ds. 0 \<le> e" by simp
  from Cons.IH [OF c(2) this] c(1) show ?case by (simp add: add.assoc)
qed

lemma foldl_clamped_add_losses:
  "0 \<le> x \<Longrightarrow> \<forall>d \<in> set ds. d \<le> 0 \<Longrightarrow> foldl clamped_add x ds = max 0 (x + sum_list ds)"
proof (induction ds arbitrary: x)
  case Nil
  then show ?case by simp
next
  case (Cons d ds)
  from Cons.prems have r: "\<forall>e \<in> set ds. e \<le> 0" and d: "d \<le> 0" by simp_all
  have n: "0 \<le> clamped_add x d" by (simp add: clamped_add_def)
  from r have s: "sum_list ds \<le> 0" by (induction ds) auto
  have "max 0 (clamped_add x d + sum_list ds) = max 0 (x + d + sum_list ds)"
    using s by (auto simp: clamped_add_def max_def)
  with Cons.IH [OF n r] show ?case by (simp add: add.assoc)
qed

lemma serialized_in_issue_order: "serialized g u f ds (in_issue_order g u f ds)"
proof (induction ds arbitrary: f)
  case Nil
  show ?case by (simp add: in_issue_order_def serialized.finished)
next
  case (Cons d ds)
  have "serialized g u (snd (add_xp_for_member f g u ((d # ds) ! 0)))
          (take 0 (d # ds) @ drop (Suc 0) (d # ds))
          (in_issue_order g u (snd (add_xp_for_member f g u d)) ds)"
    using Cons [of "snd (add_xp_for_member f g u d)"] by simp
  then have "serialized g u f (d # ds) (in_issue_order g u (snd (add_xp_for_member f g u d)) ds)"
    by (rule serialized.next_call [of 0, rotated]) simp
  then show ?case by (simp add: in_issue_order_def)
qed

lemma stored_xp_in_issue_order:
  "stored_xp f g u = Some x
   \<Longrightarrow> stored_xp (in_issue_order g u f ds) g u = Some (foldl clamped_add x ds)"
proof (induction ds arbitrary: f x)
  case Nil
  then show ?case by (simp add: in_issue_order_def)
next
  case (Cons d ds)
  from Cons.prems
  have "stored_xp (snd (add_xp_for_member f g u d)) g u = Some (clamped_add x d)"
    by (rule stored_xp_add_xp_for_member)
  from Cons.IH [OF this] show ?case by (simp add: in_issue_order_def)
qed

text \<open>
  Claim C2, as the code has it. Whatever order the pending awards take the lock in, the
  member's stored xp at the end is the result of the clamped updates
  \<open>max 0 (xp + d)\<close> applied one after the other in that order, each award exactly once.
  That value is never below \<open>max 0 (x + sum_list ds)\<close>, and it is equal to it, in every
  order, when no award is negative or none is positive.
\<close>

theorem serialized_awards:
  assumes "serialized g u f ds f'" and "stored_xp f g u = Some x" and "0 \<le> x"
  shows "\<exists>order. mset order = mset ds
           \<and> stored_xp f' g u = Some (foldl clamped_add x order)
           \<and> max 0 (x + sum_list ds) \<le> foldl clamped_add x order
           \<and> ((\<forall>d \<in> set ds. 0 \<le> d) \<or> (\<forall>d \<in> set ds. d \<le> 0)
                \<longrightarrow> foldl clamped_add x order = max 0 (x + sum_list ds))"
proof -
  from serialized_is_fold [OF assms(1,2)] obtain order
    where o: "mset order = mset ds" "stored_xp f' g u = Some (foldl clamped_add x order)"
    by blast
  from o(1) have "sum_mset (mset order) = sum_mset (mset ds)" by simp
  then have s: "sum_list order = sum_list ds" by (simp only: sum_mset_sum_list)
  from o(1) have e: "set order = set ds" by (rule mset_eq_setD)
  have "max 0 (x + sum_list ds) \<le> foldl clamped_add x order"
    using foldl_clamped_add_lower [of x order] foldl_clamped_add_nonneg [OF assms(3), of order] s
    by simp
  moreover have "(\<forall>d \<in> set ds. 0 \<le> d) \<or> (\<forall>d \<in> set ds. d \<le> 0)
      \<longrightarrow> foldl clamped_add x order = max 0 (x + sum_list ds)"
  proof
    assume "(\<forall>d \<in> set ds. 0 \<le> d) \<or> (\<forall>d \<in> set ds. d \<le> 0)"
    then show "foldl clamped_add x order = max 0 (x + sum_list ds)"
    proof
      assume a: "\<forall>d \<in> set ds. 0 \<le> d"
      then have "0 \<le> sum_list ds" by (induction ds) auto
      with foldl_clamped_add_gains [OF assms(3), of order] a e s assms(3) show ?thesis by simp
    next
      assume "\<forall>d \<in> set ds. d \<le> 0"
      with foldl_clamped_add_losses [OF assms(3), of order] e s show ?thesis by simp
    qed
  qed
  ultimately show ?thesis using o by (intro exI [of _ order] conjI)
qed

text \<open>The theorem for a member with 100 xp and the two pending awards \<open>-250\<close> and \<open>-30\<close>.\<close>

theorem serialized_awards_witness:
  "serialized 7 3 \<lparr>data_file = Some [(7, \<lparr>members = [(3, \<lparr>xp = Some 100\<rparr>)]\<rparr>)], tmp_file = None\<rparr>
     [- 250, - 30]
     (in_issue_order 7 3
        \<lparr>data_file = Some [(7, \<lparr>members = [(3, \<lparr>xp = Some 100\<rparr>)]\<rparr>)], tmp_file = None\<rparr> [- 250, - 30])
   \<and> stored_xp \<lparr>data_file = Some [(7, \<lparr>members = [(3, \<lparr>xp = Some 100\<rparr>)]\<rparr>)], tmp_file = None\<rparr> 7 3
       = Some 100
   \<and> (0::int) \<le> 100
   \<and> (- 250 :: int) \<le> 0 \<and> (- 30 :: int) \<le> 0
   \<and> stored_xp (in_issue_order 7 3
        \<lparr>data_file = Some [(7, \<lparr>members = [(3, \<lparr>xp = Some 100\<rparr>)]\<rparr>)], tmp_file = None\<rparr> [- 250, - 30])
        7 3 = Some (max 0 (100 + sum_list [- 250, - 30]))"
proof -
  let ?f = "\<lparr>data_file = Some [(7, \<lparr>members = [(3, \<lparr>xp = Some 100\<rparr>)]\<rparr>)], tmp_file = None\<rparr>"
  have r: "serialized 7 3 ?f [- 250, - 30] (in_issue_order 7 3 ?f [- 250, - 30])"
    by (rule serialized_in_issue_order)
  have s: "stored_xp ?f 7 3 = Some 100"
    by (simp add: stored_xp_def load_db_def get_xp_def)
  have x: "(0::int) \<le> 100" by simp
  from serialized_awards [OF r s x] obtain order
    where o: "stored_xp (in_issue_order 7 3 ?f [- 250, - 30]) 7 3 = Some (foldl clamped_add 100 order)"
      "(\<forall>d \<in> set [- 250, - 30 :: int]. 0 \<le> d) \<or> (\<forall>d \<in> set [- 250, - 30 :: int]. d \<le> 0)
         \<longrightarrow> foldl clamped_add 100 order = max 0 (100 + sum_list [- 250, - 30])"
    by blast
  have l: "\<forall>d \<in> set [- 250, - 30 :: int]. d \<le> 0" by simp
  with o(2) have "foldl clamped_add 100 order = max 0 (100 + sum_list [- 250, - 30])" by blast
  with o(1) have "stored_xp (in_issue_order 7 3 ?f [- 250, - 30]) 7 3
      = Some (max 0 (100 + sum_list [- 250, - 30]))" by simp
  with r s x show ?thesis by simp
qed

text \<open>
  With a gain and a loss pending the order decides: from 0 xp the awards \<open>-5\<close> and
  \<open>10\<close> leave 10 xp when the loss goes first and 5 xp when the gain goes first, while
  \<open>max 0 (0 + (-5 + 10))\<close> is 5.
\<close>

theorem serialized_awards_order_matters:
  "stored_xp \<lparr>data_file = Some [(7, \<lparr>members = [(3, \<lparr>xp = Some 0\<rparr>)]\<rparr>)], tmp_file = None\<rparr> 7 3 = Some 0
   \<and> serialized 7 3 \<lparr>data_file = Some [(7, \<lparr>members = [(3, \<lparr>xp = Some 0\<rparr>)]\<rparr>)], tmp_file = None\<rparr>
       [- 5, 10]
       (in_issue_order 7 3
          \<lparr>data_file = Some [(7, \<lparr>members = [(3, \<lparr>xp = Some 0\<rparr>)]\<rparr>)], tmp_file = None\<rparr> [- 5, 10])
   \<and> stored_xp (in_issue_order 7 3
          \<lparr>data_file = Some [(7, \<lparr>members = [(3, \<lparr>xp = Some 0\<rparr>)]\<rparr>)], tmp_file = None\<rparr> [- 5, 10])
        7 3 = Some 10
   \<and> max 0 (0 + sum_list [- 5, 10]) = (5::int)
   \<and> serialized 7 3 \<lparr>data_file = Some [(7, \<lparr>members = [(3, \<lparr>xp = Some 0\<rparr>)]\<rparr>)], tmp_file = None\<rparr>
       [- 5, 10]
       (in_issue_order 7 3
          \<lparr>data_file = Some [(7, \<lparr>members = [(3, \<lparr>xp = Some 0\<rparr>)]\<rparr>)], tmp_file = None\<rparr> [10, - 5])
   \<and> stored_xp (in_issue_order 7 3
          \<lparr>data_file = Some [(7, \<lparr>members = [(3, \<lparr>xp = Some 0\<rparr>)]\<rparr>)], tmp_file = None\<rparr> [10, - 5])
        7 3 = Some 5"
proof -
  let ?f = "\<lparr>data_file = Some [(7, \<lparr>members = [(3, \<lparr>xp = Some 0\<rparr>)]\<rparr>)], tmp_file = None\<rparr>"
  have s: "stored_xp ?f 7 3 = Some 0"
    by (simp add: stored_xp_def load_db_def get_xp_def)
  have a: "serialized 7 3 ?f [- 5, 10] (in_issue_order 7 3 ?f [- 5, 10])"
    by (rule serialized_in_issue_order)
  have "serialized 7 3 (snd (add_xp_for_member ?f 7 3 ([- 5, 10] ! 1)))
          (take 1 [- 5, 10] @ drop (Suc 1) [- 5, 10])
          (in_issue_order 7 3 (snd (add_xp_for_member ?f 7 3 10)) [- 5])"
    using serialized_in_issue_order [of 7 3 "snd (add_xp_for_member ?f 7 3 10)" "[- 5]"]
    by simp
  then have "serialized 7 3 ?f [- 5, 10] (in_issue_order 7 3 (snd (add_xp_for_member ?f 7 3 10)) [- 5])"
    by (rule serialized.next_call [of 1, rotated]) simp
  then have b: "serialized 7 3 ?f [- 5, 10] (in_issue_order 7 3 ?f [10, - 5])"
    by (simp add: in_issue_order_def)
  have c: "stored_xp (in_issue_order 7 3 ?f [- 5, 10]) 7 3 = Some 10"
    by (simp add: stored_xp_in_issue_order [OF s] clamped_add_def)
  have d: "stored_xp (in_issue_order 7 3 ?f [10, - 5]) 7 3 = Some 5"
    by (simp add: stored_xp_in_issue_order [OF s] clamped_add_def)
  have e: "max 0 (0 + sum_list [- 5, 10]) = (5::int)" by simp
  from s a c e b d show ?thesis by (intro conjI)
qed

section \<open>The roster\<close>

lemma party_fields_eq: "party_fields xs = Inr (map shown_field xs)"
proof (induction xs)
  case Nil
  show ?case by simp
next
  case (Cons e xs)
  obtain idx a b c xp1 lvl name where e: "e = (idx, (a, b, c, xp1, lvl, name))"
    by (cases e) auto
  show ?case
    by (simp add: e Cons shown_field_def remaining_to_next_cases)
qed

lemma party_eq:
  "party display_name lower f g =
     (Inr (if guild_members f g = [] then PartyEmpty
           else PartyList (length (guild_members f g))
                  (map shown_field
                     (enumerate_start 1 (sort (map (party_row display_name lower) (guild_members f g)))))),
      f)"
  unfolding party_def Let_def
  by (simp add: split_beta party_fields_eq guild_members_def)

lemma enumerate_start_length: "length (enumerate_start k xs) = length xs"
  by (induction xs arbitrary: k) simp_all

lemma enumerate_start_nth:
  "i < length xs \<Longrightarrow> enumerate_start k xs ! i = (k + int i, xs ! i)"
proof (induction xs arbitrary: k i)
  case Nil
  then show ?case by simp
next
  case (Cons x xs)
  show ?case
  proof (cases i)
    case 0
    then show ?thesis by simp
  next
    case (Suc j)
    with Cons.prems have "j < length xs" by simp
    from Cons.IH [OF this, of "k + 1"] Suc show ?thesis by simp
  qed
qed

lemma enumerate_start_snd: "map snd (enumerate_start k xs) = xs"
  by (induction xs arbitrary: k) simp_all

lemma field_entry_shown_field: "field_entry (shown_field e) = row_entry (snd e)"
  by (cases e) (auto simp: field_entry_def shown_field_def row_entry_def)

lemma row_entry_party_row: "row_entry (party_row display_name lower e) = member_entry display_name e"
  by (simp add: row_entry_def party_row_def member_entry_def Let_def)

lemma row_order_roster_before:
  assumes "party_row display_name lower e1 \<le> party_row display_name lower e2"
  shows "roster_before lower (shown_field (i, party_row display_name lower e1))
           (shown_field (j, party_row display_name lower e2))"
  using assms
  by (auto simp: party_row_def Let_def shown_field_def roster_before_def less_eq_prod_def)

lemma sorted_wrt_enumerate_start:
  "sorted_wrt (\<lambda>a b. \<forall>i j. R (i, a) (j, b)) xs \<Longrightarrow> sorted_wrt R (enumerate_start k xs)"
proof (induction xs arbitrary: k)
  case Nil
  show ?case by simp
next
  case (Cons x xs)
  have "\<forall>p \<in> set (enumerate_start (k + 1) xs). R (k, x) p"
  proof
    fix p assume "p \<in> set (enumerate_start (k + 1) xs)"
    then have "snd p \<in> set (map snd (enumerate_start (k + 1) xs))" by (simp del: enumerate_start_snd)
    then have "snd p \<in> set xs" by (simp add: enumerate_start_snd)
    with Cons.prems have "\<forall>i j. R (i, x) (j, snd p)" by simp
    then have "R (k, x) (fst p, snd p)" by blast
    then show "R (k, x) p" by simp
  qed
  moreover from Cons.prems have "sorted_wrt R (enumerate_start (k + 1) xs)"
    by (intro Cons.IH) simp
  ultimately show ?case by simp
qed

lemma enumerate_start_fst:
  "map fst (enumerate_start k xs) = map (\<lambda>i. k + int i) [0..<length xs]"
  by (rule nth_equalityI) (simp_all add: enumerate_start_length enumerate_start_nth)

text \<open>
  Claim C9. \<open>party\<close> never fails and leaves the files alone. For a guild without
  members it answers that the party is empty. Otherwise its fields show exactly the
  members of the guild, each once, with the name the caller resolved (or \<open>UID:\<close> and the
  id), numbered from 1, and ordered by descending level, then descending xp, then
  ascending lower-cased name.
\<close>

theorem party_lists_members_in_order:
  "\<exists>shown. party display_name lower f g
             = (Inr (if guild_members f g = [] then PartyEmpty
                     else PartyList (length (guild_members f g)) shown), f)
     \<and> mset (map field_entry shown) = mset (map (member_entry display_name) (guild_members f g))
     \<and> sorted_wrt (roster_before lower) shown
     \<and> map fst shown = map (\<lambda>i. 1 + int i) [0..<length (guild_members f g)]"
proof -
  let ?rows = "map (party_row display_name lower) (guild_members f g)"
  let ?shown = "map shown_field (enumerate_start 1 (sort ?rows))"
  have p: "party display_name lower f g
             = (Inr (if guild_members f g = [] then PartyEmpty
                     else PartyList (length (guild_members f g)) ?shown), f)"
    by (rule party_eq)
  have "map field_entry ?shown = map row_entry (map snd (enumerate_start 1 (sort ?rows)))"
    by (simp add: field_entry_shown_field)
  then have "map field_entry ?shown = map row_entry (sort ?rows)"
    by (simp only: enumerate_start_snd)
  then have "mset (map field_entry ?shown) = image_mset row_entry (mset (sort ?rows))"
    by simp
  also have "\<dots> = image_mset row_entry (mset ?rows)" by (simp only: mset_sort)
  also have "\<dots> = mset (map (member_entry display_name) (guild_members f g))"
    by (simp add: row_entry_party_row image_mset.compositionality comp_def)
  finally have m: "mset (map field_entry ?shown)
      = mset (map (member_entry display_name) (guild_members f g))" .
  have "sorted_wrt (\<le>) (sort ?rows)" by simp
  then have "sorted_wrt (\<lambda>a b. \<forall>i j. roster_before lower (shown_field (i, a)) (shown_field (j, b)))
               (sort ?rows)"
  proof (rule sorted_wrt_mono_rel [rotated])
    fix a b assume "a \<in> set (sort ?rows)" "b \<in> set (sort ?rows)" "a \<le> b"
    then obtain e1 e2 where "a = party_row display_name lower e1" "b = party_row display_name lower e2"
      by auto
    with \<open>a \<le> b\<close> show "\<forall>i j. roster_before lower (shown_field (i, a)) (shown_field (j, b))"
      by (simp add: row_order_roster_before)
  qed
  then have "sorted_wrt (\<lambda>a b. roster_before lower (shown_field a) (shown_field b))
               (enumerate_start 1 (sort ?rows))"
    by (rule sorted_wrt_enumerate_start)
  then have s: "sorted_wrt (roster_before lower) ?shown" by (simp add: sorted_wrt_map)
  have "map fst ?shown = map fst (enumerate_start 1 (sort ?rows))"
    by (simp add: shown_field_def split_beta)
  then have i: "map fst ?shown = map (\<lambda>i. 1 + int i) [0..<length (guild_members f g)]"
    by (simp add: enumerate_start_fst)
  from p m s i show ?thesis by blast
qed

text \<open>
  The theorem for a guild of four members, two of them tied in level and xp and one
  whose name cannot be resolved.
\<close>

theorem party_lists_members_in_order_witness:
  "party (\<lambda>uid. if uid = 1 then Some ''bob'' else if uid = 3 then Some ''Alice''
                 else if uid = 4 then Some ''carl'' else None) ascii_lower
     \<lparr>data_file = Some [(7, \<lparr>members = [(1, \<lparr>xp = Some 300\<rparr>), (2, \<lparr>xp = Some 6500\<rparr>),
                                         (3, \<lparr>xp = Some 300\<rparr>), (4, \<lparr>xp = Some 950\<rparr>)]\<rparr>)],
      tmp_file = None\<rparr> 7
   = (Inr (PartyList 4
        [(1, ''UID:2'', 5, 6500, Some 7500), (2, ''carl'', 3, 950, Some 1750),
         (3, ''Alice'', 2, 300, Some 600), (4, ''bob'', 2, 300, Some 600)]),
      \<lparr>data_file = Some [(7, \<lparr>members = [(1, \<lparr>xp = Some 300\<rparr>), (2, \<lparr>xp = Some 6500\<rparr>),
                                         (3, \<lparr>xp = Some 300\<rparr>), (4, \<lparr>xp = Some 950\<rparr>)]\<rparr>)],
       tmp_file = None\<rparr>)
   \<and> sorted_wrt (roster_before ascii_lower)
        [(1, ''UID:2'', 5, 6500, Some 7500), (2, ''carl'', 3, 950, Some 1750),
         (3, ''Alice'', 2, 300, Some 600), (4, ''bob'', 2, 300, Some 600)]
   \<and> mset (map field_entry
        [(1, ''UID:2'', 5, 6500, Some 7500), (2, ''carl'', 3, 950, Some 1750),
         (3, ''Alice'', 2, 300, Some 600), (4, ''bob'', 2, 300, Some 600)])
     = mset (map (member_entry (\<lambda>uid. if uid = 1 then Some ''bob'' else if uid = 3 then Some ''Alice''
                 else if uid = 4 then Some ''carl'' else None))
          [(1, \<lparr>xp = Some 300\<rparr>), (2, \<lparr>xp = Some 6500\<rparr>),
           (3, \<lparr>xp = Some 300\<rparr>), (4, \<lparr>xp = Some 950\<rparr>)])"
proof -
  let ?dn = "\<lambda>uid::int. if uid = 1 then Some ''bob'' else if uid = 3 then Some ''Alice''
                 else if uid = 4 then Some ''carl'' else None"
  let ?ms = "[(1::int, \<lparr>xp = Some 300\<rparr>), (2, \<lparr>xp = Some 6500\<rparr>),
              (3, \<lparr>xp = Some 300\<rparr>), (4, \<lparr>xp = Some 950\<rparr>)]"
  let ?f = "\<lparr>data_file = Some [(7, \<lparr>members = ?ms\<rparr>)], tmp_file = None\<rparr>"
  let ?l = "[(1::int, ''UID:2'', 5::int, 6500::int, Some (7500::int)), (2, ''carl'', 3, 950, Some 1750),
         (3, ''Alice'', 2, 300, Some 600), (4, ''bob'', 2, 300, Some 600)]"
  have e: "party ?dn ascii_lower ?f 7 = (Inr (PartyList 4 ?l), ?f)"
    by code_simp
  have g: "guild_members ?f 7 = ?ms"
    by (simp add: guild_members_def guild_bucket_def load_db_def)
  from party_lists_members_in_order [of ?dn ascii_lower ?f 7] obtain shown
    where p: "party ?dn ascii_lower ?f 7
               = (Inr (if guild_members ?f 7 = [] then PartyEmpty
                       else PartyList (length (guild_members ?f 7)) shown), ?f)"
      and m: "mset (map field_entry shown) = mset (map (member_entry ?dn) (guild_members ?f 7))"
      and s: "sorted_wrt (roster_before ascii_lower) shown"
    by blast
  from p have "party ?dn ascii_lower ?f 7 = (Inr (PartyList 4 shown), ?f)"
    by (simp only: g) simp
  with e have "shown = ?l" by simp
  with m s g e show ?thesis by simp
qed

section \<open>The progress bar\<close>

text \<open>
  What holds of \<open>render_progress_bar\<close> whatever the floating-point arithmetic returns:
  with nothing needed the bar is full, and otherwise, when the rounding returns a value,
  the bar has \<open>width\<close> cells of which that value, clamped to \<open>0 .. width\<close>, are full.
\<close>

lemma render_progress_bar_complete:
  "need \<le> 0 \<Longrightarrow> render_progress_bar float_round cur need width = Inr (replicate (nat width) Full)"
  by (simp add: render_progress_bar_def)

lemma count_list_full_cells:
  "count_list (replicate n Full) Full = n" "count_list (replicate n Light) Full = 0"
  by (induction n) simp_all

lemma render_progress_bar_cells:
  assumes "0 < need" and "0 \<le> width" and "float_round width cur need = Inr rounded"
  shows "\<exists>bar. render_progress_bar float_round cur need width = Inr bar
           \<and> int (length bar) = width
           \<and> int (count_list bar Full) = max 0 (min width rounded)"
  using assms by (simp add: render_progress_bar_def Let_def count_list_full_cells)

lemma render_progress_bar_overflow:
  "0 < need \<Longrightarrow> float_round width cur need = Inl e
   \<Longrightarrow> render_progress_bar float_round cur need width = Inl e"
  by (simp add: render_progress_bar_def)

end
